theory Spec2Isabelle
  imports Main "HOL-Library.AList" "HOL-Library.Char_ord" "HOL-Library.List_Lexorder"
begin

section \<open>Statistics documents and Python dictionaries\<close>

text \<open>
  A Python \<^verbatim>\<open>dict\<close> is an insertion-ordered association list: iteration follows the
  list, a lookup reads the first entry of a key, and an assignment \<^verbatim>\<open>d[k] = v\<close>
  replaces the entry of \<open>k\<close> in place or appends a new entry at the end.
  A list is a dictionary when its keys are distinct.
\<close>

type_synonym ('k, 'v) dict = "('k \<times> 'v) list"

datatype exn =
    IndexError
  | KeyError
  | ValueError
  | DocumentError
  | IsADirectoryError
  | FileNotFoundError

definition contains :: "('k, 'v) dict \<Rightarrow> 'k \<Rightarrow> bool" where
  "contains d k = (k \<in> set (map fst d))"

definition getitem :: "('k, 'v) dict \<Rightarrow> 'k \<Rightarrow> exn + 'v" where
  "getitem d k = (case map_of d k of None \<Rightarrow> Inl KeyError | Some v \<Rightarrow> Inr v)"

definition setitem :: "('k, 'v) dict \<Rightarrow> 'k \<Rightarrow> 'v \<Rightarrow> ('k, 'v) dict" where
  "setitem d k v = AList.update k v d"

definition is_dict :: "('k, 'v) dict \<Rightarrow> bool" where
  "is_dict d = distinct (map fst d)"

text \<open>
  The parsed JSON document of a statistics file: the integer under \<^verbatim>\<open>"DataVersion"\<close>
  and, under \<^verbatim>\<open>"stats"\<close>, a dictionary from categories to dictionaries from item keys
  to integers. Python integers are unbounded.
\<close>

type_synonym stats_dict = "(string, (string, int) dict) dict"

record stats_doc =
  stats :: stats_dict
  DataVersion :: int

text \<open>The invariant of a valid document: a version marker that is not negative,
  dictionaries at both levels, and every leaf between 0 and 2147483647.\<close>

definition valid_inner :: "(string, int) dict \<Rightarrow> bool" where
  "valid_inner d = (is_dict d \<and> list_all (\<lambda>kv. 0 \<le> snd kv \<and> snd kv \<le> 2147483647) d)"

definition valid_doc :: "stats_doc \<Rightarrow> bool" where
  "valid_doc A = (0 \<le> DataVersion A \<and> is_dict (stats A) \<and>
                  list_all (\<lambda>ci. valid_inner (snd ci)) (stats A))"

section \<open>The merge (lines 141 to 173 of combine-mc-stats.py)\<close>

text \<open>
  Lines 164 to 173, the body of the loop over the items of one category, on the
  dictionary \<^verbatim>\<open>output_json["stats"][outer_key]\<close>: create the key with 0 when it is
  absent, add the value, and set the entry to 2147483647 when it has reached it.
\<close>

definition add_value :: "string \<Rightarrow> int \<Rightarrow> (string, int) dict \<Rightarrow> exn + (string, int) dict" where
  "add_value inner_key val d =
     (let d1 = (if \<not> contains d inner_key then setitem d inner_key 0 else d) in
      case getitem d1 inner_key of
        Inl e \<Rightarrow> Inl e
      | Inr x \<Rightarrow>
          (let d2 = setitem d1 inner_key (x + val) in
           case getitem d2 inner_key of
             Inl e \<Rightarrow> Inl e
           | Inr y \<Rightarrow>
               Inr (if y \<ge> 2147483647 then setitem d2 inner_key 2147483647 else d2)))"

text \<open>Line 162: the loop over the items of \<^verbatim>\<open>data["stats"][outer_key]\<close>.\<close>

fun add_items :: "(string \<times> int) list \<Rightarrow> (string, int) dict \<Rightarrow> exn + (string, int) dict" where
  "add_items [] d = Inr d"
| "add_items ((inner_key, val) # rest) d =
     (case add_value inner_key val d of
        Inl e \<Rightarrow> Inl e
      | Inr d' \<Rightarrow> add_items rest d')"

text \<open>
  Lines 154 to 173: the loop over the keys of \<^verbatim>\<open>data["stats"]\<close>. The inner
  dictionary of the accumulator is mutated in place in the source; here it is read,
  updated and stored back under its category.
\<close>

fun add_categories :: "string list \<Rightarrow> stats_dict \<Rightarrow> stats_dict \<Rightarrow> exn + stats_dict" where
  "add_categories [] data_stats out = Inr out"
| "add_categories (outer_key # rest) data_stats out =
     (let out1 = (if \<not> contains out outer_key then setitem out outer_key [] else out) in
      case getitem data_stats outer_key of
        Inl e \<Rightarrow> Inl e
      | Inr items \<Rightarrow>
          (case getitem out1 outer_key of
             Inl e \<Rightarrow> Inl e
           | Inr inner \<Rightarrow>
               (case add_items items inner of
                  Inl e \<Rightarrow> Inl e
                | Inr inner' \<Rightarrow> add_categories rest data_stats (setitem out1 outer_key inner'))))"

text \<open>Lines 149 to 173: one parsed document folded into the accumulator.\<close>

definition merge_data :: "stats_doc \<Rightarrow> stats_doc \<Rightarrow> exn + stats_doc" where
  "merge_data data output_json =
     (let out1 = (if DataVersion data > DataVersion output_json
                  then output_json\<lparr>DataVersion := DataVersion data\<rparr> else output_json) in
      case add_categories (map fst (stats data)) (stats data) (stats out1) of
        Inl e \<Rightarrow> Inl e
      | Inr s \<Rightarrow> Inr (out1\<lparr>stats := s\<rparr>))"

text \<open>Line 141: the accumulator a pair starts from.\<close>

definition empty_output :: stats_doc where
  "empty_output = \<lparr>stats = [], DataVersion = 0\<rparr>"

text \<open>Lines 141 to 173 for the two documents of a matched pair, in the order of
  \<^verbatim>\<open>matched_files\<close>.\<close>

definition merge :: "stats_doc \<Rightarrow> stats_doc \<Rightarrow> exn + stats_doc" where
  "merge A B =
     (case merge_data A empty_output of
        Inl e \<Rightarrow> Inl e
      | Inr out \<Rightarrow> merge_data B out)"

text \<open>Reading a merged document the way the specification does: the value stored
  under a category and an item key, and the default 0 of an absent entry.\<close>

definition lookup :: "stats_doc \<Rightarrow> string \<Rightarrow> string \<Rightarrow> int option" where
  "lookup A cat k = (case map_of (stats A) cat of None \<Rightarrow> None | Some inner \<Rightarrow> map_of inner k)"

definition get0 :: "stats_doc \<Rightarrow> string \<Rightarrow> string \<Rightarrow> int" where
  "get0 A cat k = (case lookup A cat k of None \<Rightarrow> 0 | Some v \<Rightarrow> v)"


text \<open>Python's \<^verbatim>\<open>==\<close> on two documents: equal version markers and stats mappings
  that are equal as mappings, whatever the insertion order of their keys.\<close>

definition stats_map :: "stats_doc \<Rightarrow> string \<Rightarrow> (string \<Rightarrow> int option) option" where
  "stats_map A c = map_option map_of (map_of (stats A) c)"

definition doc_equal :: "stats_doc \<Rightarrow> stats_doc \<Rightarrow> bool" where
  "doc_equal M N = (DataVersion M = DataVersion N \<and> stats_map M = stats_map N)"

section \<open>Paths, file names and the file system\<close>

text \<open>
  A path is the list of its components below the root directory. The functions below
  follow \<^verbatim>\<open>pathlib\<close>: \<^verbatim>\<open>name\<close> is the last component, \<^verbatim>\<open>suffix\<close> is the
  part of the name from its last dot on (empty when the last dot is the first or the last
  character of the name), and \<^verbatim>\<open>stem\<close> is the name without the suffix.
\<close>

type_synonym path = "string list"

definition path_name :: "path \<Rightarrow> string" where
  "path_name p = (if p = [] then [] else last p)"

text \<open>\<^verbatim>\<open>str.find\<close>: the first index of a character, if it occurs.\<close>

fun str_find :: "string \<Rightarrow> char \<Rightarrow> nat option" where
  "str_find [] c = None"
| "str_find (x # xs) c = (if x = c then Some 0 else map_option Suc (str_find xs c))"

text \<open>\<^verbatim>\<open>str.rfind\<close>: the last index of a character, if it occurs.\<close>

definition str_rfind :: "string \<Rightarrow> char \<Rightarrow> nat option" where
  "str_rfind s c = (case str_find (rev s) c of None \<Rightarrow> None | Some j \<Rightarrow> Some (length s - 1 - j))"

definition path_suffix :: "path \<Rightarrow> string" where
  "path_suffix p =
     (let n = path_name p in
      case str_rfind n CHR ''.'' of
        None \<Rightarrow> []
      | Some i \<Rightarrow> if 0 < i \<and> i < length n - 1 then drop i n else [])"

definition path_stem :: "path \<Rightarrow> string" where
  "path_stem p =
     (let n = path_name p in
      case str_rfind n CHR ''.'' of
        None \<Rightarrow> n
      | Some i \<Rightarrow> if 0 < i \<and> i < length n - 1 then take i n else n)"

text \<open>\<^verbatim>\<open>str(path)\<close> of an absolute path.\<close>

definition str_path :: "path \<Rightarrow> string" where
  "str_path p = (if p = [] then ''/'' else concat (map (\<lambda>c. CHR ''/'' # c) p))"

text \<open>\<^verbatim>\<open>str(n)\<close> of a natural number, in decimal.\<close>

fun str_nat :: "nat \<Rightarrow> string" where
  "str_nat n = (if n < 10 then [''0123456789'' ! n]
                else str_nat (n div 10) @ [''0123456789'' ! (n mod 10)])"

text \<open>
  The three patterns of the tool are a star followed by a fixed text, so a name
  matches when it ends with that text (the star also matches the empty string and
  names that start with a dot).
\<close>

definition fnmatch_star :: "string \<Rightarrow> string \<Rightarrow> bool" where
  "fnmatch_star sfx n = (length sfx \<le> length n \<and> drop (length n - length sfx) n = sfx)"

text \<open>
  The file system lists every existing path with its node: a directory, or a regular
  file with its content. The content of a file is the document it encodes, or
  \<open>Invalid\<close> when reading it as a statistics document raises (text that is not
  JSON, a missing \<^verbatim>\<open>"DataVersion"\<close> or \<^verbatim>\<open>"stats"\<close>, a value of the wrong shape).
  Every path of the tool is below the root, so the root itself is a directory that
  always exists.
\<close>

datatype content = Doc stats_doc | Invalid

datatype node = Dir | File content

type_synonym filesystem = "(path, node) dict"

definition path_exists :: "filesystem \<Rightarrow> path \<Rightarrow> bool" where
  "path_exists fsys p = (p = [] \<or> contains fsys p)"

definition is_dir :: "filesystem \<Rightarrow> path \<Rightarrow> bool" where
  "is_dir fsys p = (p = [] \<or> map_of fsys p = Some Dir)"

text \<open>A path lies below the target when the target is a proper prefix of it.\<close>

definition below :: "path \<Rightarrow> path \<Rightarrow> bool" where
  "below target p = (length target < length p \<and> take (length target) p = target)"

text \<open>\<^verbatim>\<open>target.rglob('*' + sfx)\<close>: the paths below the target, at any depth, whose
  name matches, files and directories alike; nothing when the target is not a
  directory. The listing is taken to be consistent: the ancestors of a listed path are
  directories.\<close>

definition rglob :: "filesystem \<Rightarrow> path \<Rightarrow> string \<Rightarrow> path list" where
  "rglob fsys target sfx =
     (if is_dir fsys target
      then filter (\<lambda>p. below target p \<and> fnmatch_star sfx (path_name p)) (map fst fsys)
      else [])"

text \<open>\<^verbatim>\<open>open(file, "r")\<close> followed by \<^verbatim>\<open>dict(json.load(read_file))\<close> and the reads of
  the document's two members.\<close>

definition read_doc :: "filesystem \<Rightarrow> path \<Rightarrow> exn + stats_doc" where
  "read_doc fsys file =
     (case map_of fsys file of
        None \<Rightarrow> Inl FileNotFoundError
      | Some Dir \<Rightarrow> Inl IsADirectoryError
      | Some (File Invalid) \<Rightarrow> Inl DocumentError
      | Some (File (Doc d)) \<Rightarrow> Inr d)"

text \<open>\<^verbatim>\<open>open(output_file_path, "w")\<close> followed by \<^verbatim>\<open>json.dump\<close>: the file is created,
  or its former content replaced.\<close>

definition write_doc :: "filesystem \<Rightarrow> path \<Rightarrow> stats_doc \<Rightarrow> exn + filesystem" where
  "write_doc fsys p d =
     (if \<not> is_dir fsys (butlast p) then Inl FileNotFoundError
      else if map_of fsys p = Some Dir then Inl IsADirectoryError
      else Inr (setitem fsys p (File (Doc d))))"

section \<open>The process: standard output, termination\<close>

record world =
  fs :: filesystem
  cwd :: path
  stdout :: "string list"

text \<open>
  A run stops early through \<^verbatim>\<open>SystemExit\<close> (\<^verbatim>\<open>exit()\<close> carries no message,
  \<^verbatim>\<open>sys.exit(msg)\<close> carries the message) or through an uncaught exception. The
  interpreter turns an exit without a message into status 0; a message is printed on
  the standard error stream and the status is 1, as it is after an uncaught exception.
\<close>

datatype stop = SystemExit "string option" | Uncaught exn

definition exit_status :: "stop + unit \<Rightarrow> nat" where
  "exit_status r =
     (case r of
        Inr u \<Rightarrow> 0
      | Inl (SystemExit None) \<Rightarrow> 0
      | Inl (SystemExit (Some msg)) \<Rightarrow> 1
      | Inl (Uncaught e) \<Rightarrow> 1)"

definition print_line :: "string \<Rightarrow> world \<Rightarrow> world" where
  "print_line s w = w\<lparr>stdout := stdout w @ [s]\<rparr>"

section \<open>The command line (handle_command_line, lines 41 to 82)\<close>

text \<open>
  \<^verbatim>\<open>Path(s)\<close> belongs to the standard library: \<open>str_of s\<close> is \<^verbatim>\<open>str(Path(s))\<close> and
  \<open>resolve s\<close> is the absolute path \<^verbatim>\<open>Path(s).resolve()\<close>, which is also the path
  whose existence \<^verbatim>\<open>Path(s).exists()\<close> tests. The list \<open>argv\<close> is what argparse
  stores under \<^verbatim>\<open>args.path\<close> (the remaining arguments).
\<close>

record pathlib =
  str_of :: "string \<Rightarrow> string"
  resolve :: "string \<Rightarrow> path"

definition handle_command_line :: "pathlib \<Rightarrow> string list \<Rightarrow> world \<Rightarrow> (stop + path) \<times> world" where
  "handle_command_line lib argv w =
     (let arg = (if length argv > 0 then hd argv else []);
          shown = (if arg = [] then str_path (cwd w) else str_of lib arg);
          path = (if arg = [] then cwd w else resolve lib arg)
      in if \<not> path_exists (fs w) path
         then (Inl (SystemExit None),
               print_line (''Specified path not found. '' @ shown @
                           '' is not a valid filesystem path.'') w)
         else (Inr path, w))"

section \<open>Pairing and output (main, lines 86 to 182)\<close>

definition unexpected_name_message :: "string \<Rightarrow> string" where
  "unexpected_name_message n =
     ''\<newline>Error: Aborting script.   '' @ n @ '' has unexpected name.\<newline>'' @
     ''       Valid name format: {UUID}.X.json, where X is a sequence number.''"

text \<open>Lines 117 to 124 (and 127 to 134 for the second file): the first character of
  the suffix, the test that the stem has it, and the stem up to its first occurrence.\<close>

definition extract_uuid :: "path \<Rightarrow> stop + string" where
  "extract_uuid file =
     (case path_suffix file of
        [] \<Rightarrow> Inl (Uncaught IndexError)
      | suffix1 # rest \<Rightarrow>
          if suffix1 \<notin> set (path_stem file)
          then Inl (SystemExit (Some (unexpected_name_message (path_name file))))
          else (case str_find (path_stem file) suffix1 of
                  None \<Rightarrow> Inl (Uncaught ValueError)
                | Some index1 \<Rightarrow> Inr (take index1 (path_stem file))))"

text \<open>Lines 143 to 173: the loop over \<^verbatim>\<open>matched_files\<close>.\<close>

fun accumulate :: "filesystem \<Rightarrow> path list \<Rightarrow> stats_doc \<Rightarrow> exn + stats_doc" where
  "accumulate fsys [] output_json = Inr output_json"
| "accumulate fsys (file # files) output_json =
     (case read_doc fsys file of
        Inl e \<Rightarrow> Inl e
      | Inr data \<Rightarrow>
          (case merge_data data output_json of
             Inl e \<Rightarrow> Inl e
           | Inr out \<Rightarrow> accumulate fsys files out))"

text \<open>Lines 137 to 180: a matched pair is announced, counted, merged and written to
  \<^verbatim>\<open>{uuid1}.json\<close> in the target directory.\<close>

definition combine :: "path \<Rightarrow> string \<Rightarrow> path \<Rightarrow> path \<Rightarrow> nat \<times> world \<Rightarrow> (stop + unit) \<times> nat \<times> world" where
  "combine target uuid1 file1 file2 st =
     (let w1 = print_line (uuid1 @ '' Match found'') (snd st);
          matches = fst st + 1
      in case accumulate (fs w1) [file1, file2] empty_output of
           Inl e \<Rightarrow> (Inl (Uncaught e), (matches, w1))
         | Inr output_json \<Rightarrow>
             (case write_doc (fs w1) (target @ [uuid1 @ ''.json'']) output_json of
                Inl e \<Rightarrow> (Inl (Uncaught e), (matches, w1))
              | Inr fs' \<Rightarrow> (Inr (), (matches, w1\<lparr>fs := fs'\<rparr>))))"

text \<open>Lines 126 to 180: the loop over the generation-2 files for one generation-1 file.\<close>

fun inner_loop :: "path \<Rightarrow> path \<Rightarrow> string \<Rightarrow> path list \<Rightarrow> nat \<times> world \<Rightarrow> (stop + unit) \<times> nat \<times> world" where
  "inner_loop target file1 uuid1 [] st = (Inr (), st)"
| "inner_loop target file1 uuid1 (file2 # rest) st =
     (case extract_uuid file2 of
        Inl s \<Rightarrow> (Inl s, st)
      | Inr uuid2 \<Rightarrow>
          if uuid1 = uuid2
          then (case combine target uuid1 file1 file2 st of
                  (Inl s, st') \<Rightarrow> (Inl s, st')
                | (Inr u, st') \<Rightarrow> inner_loop target file1 uuid1 rest st')
          else inner_loop target file1 uuid1 rest st)"

text \<open>Lines 114 to 180: the loop over the generation-1 files.\<close>

fun outer_loop :: "path \<Rightarrow> path list \<Rightarrow> path list \<Rightarrow> nat \<times> world \<Rightarrow> (stop + unit) \<times> nat \<times> world" where
  "outer_loop target [] json2_files st = (Inr (), st)"
| "outer_loop target (file1 # rest) json2_files st =
     (case extract_uuid file1 of
        Inl s \<Rightarrow> (Inl s, st)
      | Inr uuid1 \<Rightarrow>
          (case inner_loop target file1 uuid1 json2_files st of
             (Inl s, st') \<Rightarrow> (Inl s, st')
           | (Inr u, st') \<Rightarrow> outer_loop target rest json2_files st'))"

text \<open>The three sorted listings of lines 102, 107 and 108.\<close>

definition json_files :: "filesystem \<Rightarrow> path \<Rightarrow> path list" where
  "json_files fsys target = sort (rglob fsys target ''.json'')"

definition json1_files :: "filesystem \<Rightarrow> path \<Rightarrow> path list" where
  "json1_files fsys target = sort (rglob fsys target ''.1.json'')"

definition json2_files :: "filesystem \<Rightarrow> path \<Rightarrow> path list" where
  "json2_files fsys target = sort (rglob fsys target ''.2.json'')"

definition no_json_message :: "path \<Rightarrow> string" where
  "no_json_message target = ''\<newline>Error: There are no JSON files under '' @ str_path target"

definition main :: "pathlib \<Rightarrow> string list \<Rightarrow> world \<Rightarrow> (stop + unit) \<times> world" where
  "main lib argv w =
     (case handle_command_line lib argv w of
        (Inl s, w1) \<Rightarrow> (Inl s, w1)
      | (Inr target, w1) \<Rightarrow>
          (let files_found = length (json_files (fs w1) target) in
           if files_found = 0
           then (Inl (SystemExit (Some (no_json_message target))), w1)
           else
             (let w2 = print_line [] w1;
                  w3 = print_line (''Combining from '' @ str_nat (length (json1_files (fs w1) target)) @
                                   '' old files and '' @ str_nat (length (json2_files (fs w1) target)) @
                                   '' new files'') w2
              in case outer_loop target (json1_files (fs w1) target) (json2_files (fs w1) target) (0, w3) of
                   (Inl s, st) \<Rightarrow> (Inl s, snd st)
                 | (Inr u, st) \<Rightarrow>
                     (Inr (), print_line (''Matched '' @ str_nat (fst st) @ '' files'') (snd st)))))"

section \<open>Closed forms of the loops\<close>

text \<open>The loops of the merge never raise; what they compute is written here without
  the error branches, and proved equal to the loops below.\<close>

definition clamp :: "int \<Rightarrow> int" where
  "clamp x = (if x \<ge> 2147483647 then 2147483647 else x)"

definition dget :: "(string, int) dict \<Rightarrow> string \<Rightarrow> int" where
  "dget d k = (case map_of d k of None \<Rightarrow> 0 | Some x \<Rightarrow> x)"

definition add_items_map :: "(string \<times> int) list \<Rightarrow> (string, int) dict \<Rightarrow> (string, int) dict" where
  "add_items_map items d = fold (\<lambda>kv d. setitem d (fst kv) (clamp (dget d (fst kv) + snd kv))) items d"

definition inner_of :: "stats_dict \<Rightarrow> string \<Rightarrow> (string, int) dict" where
  "inner_of s c = (case map_of s c of None \<Rightarrow> [] | Some inner \<Rightarrow> inner)"

definition add_categories_map :: "string list \<Rightarrow> stats_dict \<Rightarrow> stats_dict \<Rightarrow> stats_dict" where
  "add_categories_map cs data_stats out =
     fold (\<lambda>c out. setitem out c (add_items_map (inner_of data_stats c) (inner_of out c))) cs out"

declare str_nat.simps [simp del]

section \<open>Notions used to state what a run does\<close>

text \<open>The pairing key in closed form: the file name up to its first dot.\<close>

definition uuid_of :: "path \<Rightarrow> string" where
  "uuid_of p = takeWhile (\<lambda>c. c \<noteq> CHR ''.'') (path_name p)"

text \<open>The number of dots of a name: an output name has one, a generation file has at
  least two, so an output never falls on a generation file.\<close>

definition dots :: "string \<Rightarrow> nat" where
  "dots s = length (filter (\<lambda>c. c = CHR ''.'') s)"

text \<open>Line 176: the output path of a UUID.\<close>

definition out_path :: "path \<Rightarrow> string \<Rightarrow> path" where
  "out_path target u = target @ [u @ ''.json'']"

text \<open>The accumulator after the two files of a pair, read in a given file system.\<close>

definition merged :: "filesystem \<Rightarrow> path \<Rightarrow> path \<Rightarrow> stats_doc" where
  "merged fsys f1 f2 =
     (case accumulate fsys [f1, f2] empty_output of Inl e \<Rightarrow> empty_output | Inr M \<Rightarrow> M)"

text \<open>The write of one pair, and the line printed for it.\<close>

definition write_pair :: "path \<Rightarrow> filesystem \<Rightarrow> path \<times> path \<Rightarrow> filesystem \<Rightarrow> filesystem" where
  "write_pair target fs0 pr fsys =
     setitem fsys (out_path target (uuid_of (fst pr))) (File (Doc (merged fs0 (fst pr) (snd pr))))"

definition match_line :: "path \<times> path \<Rightarrow> string" where
  "match_line pr = uuid_of (fst pr) @ '' Match found''"

text \<open>The pairs with equal keys, in the order in which the two loops meet them.\<close>

definition matched_pairs :: "path list \<Rightarrow> path list \<Rightarrow> (path \<times> path) list" where
  "matched_pairs xs ys =
     concat (map (\<lambda>f1. map (Pair f1) (filter (\<lambda>f2. uuid_of f1 = uuid_of f2) ys)) xs)"

definition pairs_of :: "filesystem \<Rightarrow> path \<Rightarrow> (path \<times> path) list" where
  "pairs_of fsys target = matched_pairs (json1_files fsys target) (json2_files fsys target)"

text \<open>A pair can be processed without an exception: both files hold a document and no
  directory sits at the output path.\<close>

definition readable :: "filesystem \<Rightarrow> path \<Rightarrow> bool" where
  "readable fsys f = (case read_doc fsys f of Inl e \<Rightarrow> False | Inr d \<Rightarrow> True)"

definition good_pair :: "filesystem \<Rightarrow> path \<Rightarrow> path \<times> path \<Rightarrow> bool" where
  "good_pair fsys target pr =
     (readable fsys (fst pr) \<and> readable fsys (snd pr) \<and>
      map_of fsys (out_path target (uuid_of (fst pr))) \<noteq> Some Dir)"

text \<open>The state of the loops after a list of pairs: the counter, the writes and the
  printed lines.\<close>

definition apply_pairs :: "path \<Rightarrow> filesystem \<Rightarrow> (path \<times> path) list \<Rightarrow> nat \<times> world \<Rightarrow> nat \<times> world" where
  "apply_pairs target fs0 ps st =
     (fst st + length ps,
      (snd st)\<lparr>fs := fold (write_pair target fs0) ps (fs (snd st)),
               stdout := stdout (snd st) @ map match_line ps\<rparr>)"

text \<open>Two relations between the file system at the start and a later one. The first
  is the invariant of the loops: every path whose name does not have exactly one dot is
  unchanged, and the directories are the same. The second is what a run guarantees
  whatever its outcome: those paths are unchanged and no path is lost.\<close>

definition frame :: "filesystem \<Rightarrow> filesystem \<Rightarrow> bool" where
  "frame fs0 fsys =
     ((\<forall>p. dots (path_name p) \<noteq> 1 \<longrightarrow> map_of fsys p = map_of fs0 p) \<and>
      (\<forall>p. (map_of fsys p = Some Dir) = (map_of fs0 p = Some Dir)))"

definition preserves :: "filesystem \<Rightarrow> filesystem \<Rightarrow> bool" where
  "preserves fsys fsys' =
     ((\<forall>p. dots (path_name p) \<noteq> 1 \<longrightarrow> map_of fsys' p = map_of fsys p) \<and>
      (\<forall>p. map_of fsys p \<noteq> None \<longrightarrow> map_of fsys' p \<noteq> None))"

text \<open>Lines 111 and 182: the two informational lines.\<close>

definition combining_line :: "filesystem \<Rightarrow> path \<Rightarrow> string" where
  "combining_line fsys target =
     ''Combining from '' @ str_nat (length (json1_files fsys target)) @ '' old files and '' @
     str_nat (length (json2_files fsys target)) @ '' new files''"

definition matched_line :: "nat \<Rightarrow> string" where
  "matched_line n = ''Matched '' @ str_nat n @ '' files''"

text \<open>The regular files below the target whose name ends in \<^verbatim>\<open>.json\<close>.\<close>

definition regular_json_files :: "filesystem \<Rightarrow> path \<Rightarrow> path list" where
  "regular_json_files fsys target =
     filter (\<lambda>p. below target p \<and> fnmatch_star ''.json'' (path_name p) \<and>
                  (case map_of fsys p of Some (File c) \<Rightarrow> True | _ \<Rightarrow> False))
            (map fst fsys)"

section \<open>Example inputs\<close>

text \<open>A world with a given file system, a library whose every argument resolves to a
  given path, and a document with one counter.\<close>

definition ex_world :: "filesystem \<Rightarrow> world" where
  "ex_world fsys = \<lparr>fs = fsys, cwd = [''home''], stdout = []\<rparr>"

definition ex_lib :: "path \<Rightarrow> pathlib" where
  "ex_lib p = \<lparr>str_of = (\<lambda>s. s), resolve = (\<lambda>s. p)\<rparr>"

definition ex_doc :: "int \<Rightarrow> int \<Rightarrow> stats_doc" where
  "ex_doc jumps version = \<lparr>stats = [(''custom'', [(''jump'', jumps)])], DataVersion = version\<rparr>"

text \<open>A matched pair whose output file already exists.\<close>

definition ex_fs_overwrite :: filesystem where
  "ex_fs_overwrite =
     [([''stats''], Dir),
      ([''stats'', ''1234.json''], File Invalid),
      ([''stats'', ''1234.1.json''], File (Doc (ex_doc 5 100))),
      ([''stats'', ''1234.2.json''], File (Doc (ex_doc 10 200)))]"

text \<open>A matched pair, a generation-1 file and a generation-2 file without a partner
  (neither holds a document), the latter in a subdirectory.\<close>

definition ex_fs_unmatched :: filesystem where
  "ex_fs_unmatched =
     [([''stats''], Dir),
      ([''stats'', ''9999.1.json''], File Invalid),
      ([''stats'', ''1234.2.json''], File (Doc (ex_doc 10 200))),
      ([''stats'', ''1234.1.json''], File (Doc (ex_doc 5 100))),
      ([''stats'', ''old''], Dir),
      ([''stats'', ''old'', ''7777.2.json''], File Invalid)]"


text \<open>Two matched pairs.\<close>

definition ex_fs_two_pairs :: filesystem where
  "ex_fs_two_pairs =
     [([''stats''], Dir),
      ([''stats'', ''1234.1.json''], File (Doc (ex_doc 1 10))),
      ([''stats'', ''1234.2.json''], File (Doc (ex_doc 2 20))),
      ([''stats'', ''5678.1.json''], File (Doc (ex_doc 5 100))),
      ([''stats'', ''5678.2.json''], File (Doc (ex_doc 10 200)))]"

text \<open>A directory whose name ends in \<^verbatim>\<open>.json\<close>, and no regular file.\<close>

definition ex_fs_json_dir :: filesystem where
  "ex_fs_json_dir = [([''stats''], Dir), ([''stats'', ''foo.json''], Dir)]"

section \<open>Properties of the merge\<close>

lemma contains_iff: "contains d k \<longleftrightarrow> map_of d k \<noteq> None"
  by (simp add: contains_def map_of_eq_None_iff)

lemma map_of_setitem: "map_of (setitem d k v) = (map_of d)(k \<mapsto> v)"
  by (simp add: setitem_def update_conv')

lemma setitem_setitem: "setitem (setitem d k v) k v' = setitem d k v'"
  by (simp add: setitem_def)

lemma add_value_eq: "add_value k v d = Inr (setitem d k (clamp (dget d k + v)))"
  by (auto simp: add_value_def Let_def getitem_def map_of_setitem setitem_setitem clamp_def dget_def
      contains_iff split: option.splits)

lemma add_items_eq: "add_items items d = Inr (add_items_map items d)"
  by (induction items arbitrary: d) (auto simp: add_items_map_def add_value_eq)

lemma map_of_add_items_map:
  "distinct (map fst items) \<Longrightarrow>
   map_of (add_items_map items d) k =
     (case map_of items k of None \<Rightarrow> map_of d k | Some v \<Rightarrow> Some (clamp (dget d k + v)))"
proof (induction items arbitrary: d)
  case Nil
  then show ?case by (simp add: add_items_map_def)
next
  case (Cons kv items)
  obtain k' v' where kv: "kv = (k', v')" by (cases kv)
  have nin: "map_of items k' = None" using Cons.prems kv by (simp add: map_of_eq_None_iff)
  have step: "add_items_map (kv # items) d = add_items_map items (setitem d k' (clamp (dget d k' + v')))"
    by (simp add: add_items_map_def kv)
  have dist: "distinct (map fst items)" using Cons.prems by simp
  show ?case
    unfolding step Cons.IH[OF dist]
    using nin
    by (auto simp: kv map_of_setitem dget_def split: option.splits)
qed

lemma add_categories_eq:
  "\<forall>c \<in> set cs. map_of data_stats c \<noteq> None \<Longrightarrow>
   add_categories cs data_stats out = Inr (add_categories_map cs data_stats out)"
proof (induction cs arbitrary: out)
  case Nil
  then show ?case by (simp add: add_categories_map_def)
next
  case (Cons c cs)
  from Cons.prems obtain items where items: "map_of data_stats c = Some items" by auto
  have rest: "\<forall>c \<in> set cs. map_of data_stats c \<noteq> None" using Cons.prems by simp
  have step: "add_categories_map (c # cs) data_stats out =
      add_categories_map cs data_stats (setitem out c (add_items_map items (inner_of out c)))"
    by (simp add: add_categories_map_def inner_of_def items)
  show ?case
    unfolding step
    by (auto simp: Let_def getitem_def items map_of_setitem setitem_setitem add_items_eq
        Cons.IH[OF rest] contains_iff inner_of_def split: option.splits)
qed

lemma map_of_add_categories_map:
  "distinct cs \<Longrightarrow>
   map_of (add_categories_map cs data_stats out) c =
     (if c \<in> set cs then Some (add_items_map (inner_of data_stats c) (inner_of out c))
      else map_of out c)"
proof (induction cs arbitrary: out)
  case Nil
  then show ?case by (simp add: add_categories_map_def)
next
  case (Cons c' cs)
  have step: "add_categories_map (c' # cs) data_stats out =
      add_categories_map cs data_stats
        (setitem out c' (add_items_map (inner_of data_stats c') (inner_of out c')))"
    by (simp add: add_categories_map_def)
  have dist: "distinct cs" and nin: "c' \<notin> set cs" using Cons.prems by simp_all
  show ?case
    unfolding step Cons.IH[OF dist]
    using nin by (auto simp: map_of_setitem inner_of_def)
qed

lemma merge_data_eq:
  "merge_data data out =
     Inr \<lparr>stats = add_categories_map (map fst (stats data)) (stats data) (stats out),
          DataVersion = max (DataVersion out) (DataVersion data)\<rparr>"
proof -
  have "\<forall>c \<in> set (map fst (stats data)). map_of (stats data) c \<noteq> None"
    by (simp add: map_of_eq_None_iff)
  then show ?thesis
    by (simp add: merge_data_def Let_def add_categories_eq max_def)
qed

lemma map_of_stats_merge_data:
  assumes "is_dict (stats data)" and "merge_data data out = Inr out'"
  shows "map_of (stats out') c =
     (case map_of (stats data) c of
        None \<Rightarrow> map_of (stats out) c
      | Some items \<Rightarrow> Some (add_items_map items (inner_of (stats out) c)))"
proof -
  have d: "distinct (map fst (stats data))" using assms(1) by (simp add: is_dict_def)
  have o: "stats out' = add_categories_map (map fst (stats data)) (stats data) (stats out)"
    using assms by (auto simp: merge_data_eq)
  have m: "c \<in> set (map fst (stats data)) \<longleftrightarrow> map_of (stats data) c \<noteq> None"
    by (simp add: map_of_eq_None_iff)
  show ?thesis
    unfolding o map_of_add_categories_map[OF d] m
    by (auto simp: inner_of_def split: option.splits)
qed

lemma DataVersion_merge_data:
  "merge_data data out = Inr out' \<Longrightarrow> DataVersion out' = max (DataVersion out) (DataVersion data)"
  by (auto simp: merge_data_eq)

lemma lookup_merge_data:
  assumes "is_dict (stats data)" and "list_all (\<lambda>ci. is_dict (snd ci)) (stats data)"
    and "merge_data data out = Inr out'"
  shows "lookup out' c k =
     (case lookup data c k of
        None \<Rightarrow> lookup out c k
      | Some v \<Rightarrow> Some (clamp (get0 out c k + v)))"
proof (cases "map_of (stats data) c")
  case None
  then show ?thesis
    by (simp add: lookup_def map_of_stats_merge_data[OF assms(1,3)])
next
  case (Some items)
  then have "(c, items) \<in> set (stats data)" by (rule map_of_SomeD)
  with assms(2) have "distinct (map fst items)"
    by (auto simp: list_all_iff is_dict_def)
  then show ?thesis
    by (auto simp: lookup_def get0_def dget_def inner_of_def Some
        map_of_stats_merge_data[OF assms(1,3)] map_of_add_items_map split: option.splits)
qed

lemma dom_stats_merge_data:
  assumes "is_dict (stats data)" and "merge_data data out = Inr out'"
  shows "map_of (stats out') c = None \<longleftrightarrow> map_of (stats data) c = None \<and> map_of (stats out) c = None"
  by (auto simp: map_of_stats_merge_data[OF assms] split: option.splits)

lemma merge_total: "\<exists>M. merge A B = Inr M"
  by (simp add: merge_def merge_data_eq)

lemma valid_doc_dicts:
  "valid_doc A \<Longrightarrow> is_dict (stats A) \<and> list_all (\<lambda>ci. is_dict (snd ci)) (stats A)"
  by (auto simp: valid_doc_def valid_inner_def list_all_iff)

lemma valid_doc_leaf:
  assumes "valid_doc A" and "lookup A c k = Some a"
  shows "0 \<le> a \<and> a \<le> 2147483647"
proof -
  from assms(2) obtain inner where i: "map_of (stats A) c = Some inner" and k: "map_of inner k = Some a"
    by (auto simp: lookup_def split: option.splits)
  from i have "(c, inner) \<in> set (stats A)" by (rule map_of_SomeD)
  with assms(1) have "valid_inner inner" by (auto simp: valid_doc_def list_all_iff)
  moreover from k have "(k, a) \<in> set inner" by (rule map_of_SomeD)
  ultimately show ?thesis by (auto simp: valid_inner_def list_all_iff)
qed

lemma lookup_empty_output: "lookup empty_output c k = None"
  by (simp add: lookup_def empty_output_def)

lemma lookup_merge:
  assumes "valid_doc A" and "valid_doc B" and "merge A B = Inr M"
  shows "lookup M c k =
     (if lookup A c k = None \<and> lookup B c k = None then None
      else Some (min 2147483647 (get0 A c k + get0 B c k)))"
proof -
  from assms(3) obtain out where a: "merge_data A empty_output = Inr out" and b: "merge_data B out = Inr M"
    by (auto simp: merge_def split: sum.splits)
  note dA = valid_doc_dicts[OF assms(1)] and dB = valid_doc_dicts[OF assms(2)]
  have la: "lookup out c k = lookup A c k"
  proof (cases "lookup A c k")
    case None
    then show ?thesis
      using lookup_merge_data[OF conjunct1[OF dA] conjunct2[OF dA] a, of c k]
      by (simp add: lookup_empty_output)
  next
    case (Some v)
    with valid_doc_leaf[OF assms(1) Some] show ?thesis
      using lookup_merge_data[OF conjunct1[OF dA] conjunct2[OF dA] a, of c k]
      by (simp add: get0_def lookup_empty_output clamp_def)
  qed
  have ga: "get0 out c k = get0 A c k" by (simp add: get0_def la)
  show ?thesis
  proof (cases "lookup B c k")
    case None
    show ?thesis
    proof (cases "lookup A c k")
      case None
      with \<open>lookup B c k = None\<close> show ?thesis
        using lookup_merge_data[OF conjunct1[OF dB] conjunct2[OF dB] b, of c k] by (simp add: la)
    next
      case (Some v)
      with valid_doc_leaf[OF assms(1) Some] \<open>lookup B c k = None\<close> show ?thesis
        using lookup_merge_data[OF conjunct1[OF dB] conjunct2[OF dB] b, of c k]
        by (simp add: la get0_def)
    qed
  next
    case (Some v)
    then show ?thesis
      using lookup_merge_data[OF conjunct1[OF dB] conjunct2[OF dB] b, of c k]
      by (simp add: la get0_def clamp_def min_def)
  qed
qed

lemma stats_map_lookup:
  "stats_map M c = (if map_of (stats M) c = None then None else Some (\<lambda>k. lookup M c k))"
  by (auto simp: stats_map_def lookup_def)

lemma dom_stats_merge:
  assumes "valid_doc A" and "valid_doc B" and "merge A B = Inr M"
  shows "map_of (stats M) c = None \<longleftrightarrow> map_of (stats A) c = None \<and> map_of (stats B) c = None"
proof -
  from assms(3) obtain out where a: "merge_data A empty_output = Inr out" and b: "merge_data B out = Inr M"
    by (auto simp: merge_def split: sum.splits)
  have "map_of (stats out) c = None \<longleftrightarrow> map_of (stats A) c = None"
    using dom_stats_merge_data[OF conjunct1[OF valid_doc_dicts[OF assms(1)]] a, of c]
    by (simp add: empty_output_def)
  then show ?thesis
    using dom_stats_merge_data[OF conjunct1[OF valid_doc_dicts[OF assms(2)]] b, of c] by auto
qed

lemma DataVersion_merge:
  assumes "merge A B = Inr M"
  shows "DataVersion M = max (max 0 (DataVersion A)) (DataVersion B)"
proof -
  from assms obtain out where a: "merge_data A empty_output = Inr out" and b: "merge_data B out = Inr M"
    by (auto simp: merge_def split: sum.splits)
  show ?thesis
    using DataVersion_merge_data[OF a] DataVersion_merge_data[OF b] by (simp add: empty_output_def)
qed


section \<open>Properties of file names and of the pairing loops\<close>

lemma str_find_None: "str_find s c = None \<longleftrightarrow> c \<notin> set s"
  by (induction s) auto

lemma str_find_Some:
  "str_find s c = Some i \<Longrightarrow> i < length s \<and> s ! i = c \<and> take i s = takeWhile (\<lambda>x. x \<noteq> c) s"
  by (induction s arbitrary: i) (auto split: if_splits)

lemma str_rfind_Some:
  assumes "str_rfind s c = Some i"
  shows "i < length s \<and> s ! i = c"
proof -
  from assms obtain j where j: "str_find (rev s) c = Some j" and i: "i = length s - 1 - j"
    by (auto simp: str_rfind_def split: option.splits)
  from str_find_Some[OF j] have "j < length s" and "rev s ! j = c" by simp_all
  then show ?thesis using i by (simp add: rev_nth)
qed

lemma name_stem_suffix: "path_name p = path_stem p @ path_suffix p"
  by (simp add: path_stem_def path_suffix_def Let_def split: option.splits)

lemma path_suffix_dot:
  assumes "path_suffix p = x # r"
  shows "x = CHR ''.''"
proof -
  from assms obtain i where i: "str_rfind (path_name p) CHR ''.'' = Some i"
    and d: "drop i (path_name p) = x # r"
    by (auto simp: path_suffix_def Let_def split: option.splits if_splits)
  from str_rfind_Some[OF i] have "i < length (path_name p)" and "path_name p ! i = CHR ''.''" by simp_all
  then have "drop i (path_name p) = CHR ''.'' # drop (Suc i) (path_name p)"
    by (metis Cons_nth_drop_Suc)
  with d show ?thesis by simp
qed

lemma extract_uuid_Inr:
  assumes "extract_uuid p = Inr u"
  shows "u = uuid_of p \<and> CHR ''.'' \<in> set (path_stem p) \<and> path_suffix p \<noteq> []"
proof -
  from assms obtain x r where s: "path_suffix p = x # r"
    by (auto simp: extract_uuid_def split: list.splits)
  have x: "x = CHR ''.''" using path_suffix_dot[OF s] .
  from assms s x have mem: "CHR ''.'' \<in> set (path_stem p)"
    by (auto simp: extract_uuid_def split: if_splits)
  from assms s x mem obtain i where i: "str_find (path_stem p) CHR ''.'' = Some i" and u: "u = take i (path_stem p)"
    by (auto simp: extract_uuid_def split: option.splits)
  have "u = takeWhile (\<lambda>c. c \<noteq> CHR ''.'') (path_stem p)"
    using str_find_Some[OF i] u by simp
  also have "\<dots> = takeWhile (\<lambda>c. c \<noteq> CHR ''.'') (path_name p)"
    using mem by (simp add: name_stem_suffix takeWhile_append1)
  finally show ?thesis using mem s by (simp add: uuid_of_def)
qed

lemma extract_uuid_ok:
  assumes "path_suffix p \<noteq> []" and "CHR ''.'' \<in> set (path_stem p)"
  shows "extract_uuid p = Inr (uuid_of p)"
proof -
  from assms(1) obtain x r where s: "path_suffix p = x # r" by (cases "path_suffix p") auto
  have x: "x = CHR ''.''" using path_suffix_dot[OF s] .
  from assms(2) obtain i where i: "str_find (path_stem p) CHR ''.'' = Some i"
    using str_find_None[of "path_stem p" "CHR ''.''"] by auto
  then have "extract_uuid p = Inr (take i (path_stem p))"
    using s x assms(2) by (simp add: extract_uuid_def)
  with extract_uuid_Inr[of p "take i (path_stem p)"] show ?thesis by simp
qed

lemma extract_uuid_malformed:
  assumes "path_suffix p \<noteq> []" and "CHR ''.'' \<notin> set (path_stem p)"
  shows "extract_uuid p = Inl (SystemExit (Some (unexpected_name_message (path_name p))))"
proof -
  from assms(1) obtain x r where s: "path_suffix p = x # r" by (cases "path_suffix p") auto
  have x: "x = CHR ''.''" using path_suffix_dot[OF s] .
  show ?thesis using s x assms(2) by (simp add: extract_uuid_def)
qed

lemma str_find_append_notin: "c \<notin> set xs \<Longrightarrow> str_find (xs @ c # ys) c = Some (length xs)"
  by (induction xs) auto

lemma generation_name:
  assumes "path_name p = X @ [CHR ''.'', d] @ ''.json''"
  shows "path_suffix p = ''.json''" and "path_stem p = X @ [CHR ''.'', d]"
proof -
  let ?n = "path_name p"
  have "rev ?n = ''nosj'' @ CHR ''.'' # (d # CHR ''.'' # rev X)" by (simp add: assms)
  then have "str_find (rev ?n) CHR ''.'' = Some 4"
    using str_find_append_notin[of "CHR ''.''" "''nosj''" "d # CHR ''.'' # rev X"] by simp
  then have r: "str_rfind ?n CHR ''.'' = Some (length X + 2)"
    by (simp add: str_rfind_def assms)
  show "path_suffix p = ''.json''"
    using r by (simp add: path_suffix_def Let_def) (simp add: assms)
  show "path_stem p = X @ [CHR ''.'', d]"
    using r by (simp add: path_stem_def Let_def) (simp add: assms)
qed

lemma fnmatch_star_append: "fnmatch_star sfx n \<longleftrightarrow> (\<exists>X. n = X @ sfx)"
proof
  assume "fnmatch_star sfx n"
  then have "n = take (length n - length sfx) n @ sfx"
    by (metis append_take_drop_id fnmatch_star_def)
  then show "\<exists>X. n = X @ sfx" ..
next
  assume "\<exists>X. n = X @ sfx"
  then show "fnmatch_star sfx n" by (auto simp: fnmatch_star_def)
qed

lemma generation_file_ok:
  assumes "fnmatch_star ''.1.json'' (path_name p) \<or> fnmatch_star ''.2.json'' (path_name p)"
  shows "extract_uuid p = Inr (uuid_of p)" and "CHR ''.'' \<in> set (path_stem p)"
    and "path_suffix p = ''.json''"
proof -
  from assms obtain X d where n: "path_name p = X @ [CHR ''.'', d] @ ''.json''"
    by (auto simp: fnmatch_star_append)
  show s: "path_suffix p = ''.json''" and m: "CHR ''.'' \<in> set (path_stem p)"
    using generation_name[OF n] by simp_all
  show "extract_uuid p = Inr (uuid_of p)"
    using extract_uuid_ok[of p] s m by simp
qed

lemma dots_append: "dots (xs @ ys) = dots xs + dots ys"
  by (simp add: dots_def)

lemma dots_zero: "CHR ''.'' \<notin> set s \<Longrightarrow> dots s = 0"
  by (induction s) (auto simp: dots_def)

lemma dots_pos: "CHR ''.'' \<in> set s \<Longrightarrow> 1 \<le> dots s"
  by (induction s) (auto simp: dots_def)

lemma uuid_of_no_dot: "CHR ''.'' \<notin> set (uuid_of p)"
  using set_takeWhileD[of "CHR ''.''" "\<lambda>c. c \<noteq> CHR ''.''" "path_name p"]
  by (auto simp: uuid_of_def)

lemma path_name_out_path: "path_name (out_path target u) = u @ ''.json''"
  by (simp add: out_path_def path_name_def)

lemma dots_out_path: "dots (path_name (out_path target (uuid_of p))) = 1"
  by (simp add: path_name_out_path dots_append dots_zero[OF uuid_of_no_dot]) (simp add: dots_def)

lemma dots_input:
  assumes "extract_uuid p = Inr u"
  shows "2 \<le> dots (path_name p)"
proof -
  from extract_uuid_Inr[OF assms] have m: "CHR ''.'' \<in> set (path_stem p)" and s: "path_suffix p \<noteq> []"
    by simp_all
  from s obtain x r where xr: "path_suffix p = x # r" by (cases "path_suffix p") auto
  with path_suffix_dot[OF xr] have "CHR ''.'' \<in> set (path_suffix p)" by simp
  then show ?thesis
    using dots_pos[OF m] dots_pos[of "path_suffix p"]
    by (simp add: name_stem_suffix dots_append)
qed

lemma frame_refl: "frame fsys fsys"
  by (simp add: frame_def)

lemma frame_read:
  assumes "frame fs0 fsys" and "extract_uuid p = Inr u"
  shows "read_doc fsys p = read_doc fs0 p"
proof -
  have "dots (path_name p) \<noteq> 1" using dots_input[OF assms(2)] by simp
  with assms(1) have "map_of fsys p = map_of fs0 p" by (simp add: frame_def)
  then show ?thesis by (simp add: read_doc_def)
qed

lemma frame_is_dir: "frame fs0 fsys \<Longrightarrow> is_dir fsys p = is_dir fs0 p"
  by (simp add: frame_def is_dir_def)

lemma frame_write:
  assumes "frame fs0 fsys" and "map_of fs0 (out_path target (uuid_of (fst pr))) \<noteq> Some Dir"
  shows "frame fs0 (write_pair target fs0' pr fsys)"
proof -
  let ?o = "out_path target (uuid_of (fst pr))"
  have "p \<noteq> ?o" if "dots (path_name p) \<noteq> 1" for p
    using that dots_out_path[of target "fst pr"] by auto
  then show ?thesis
    using assms by (auto simp: frame_def write_pair_def map_of_setitem)
qed

lemma accumulate_pair:
  assumes "read_doc fsys f1 = Inr A" and "read_doc fsys f2 = Inr B"
  shows "accumulate fsys [f1, f2] empty_output = merge A B"
  using assms by (simp add: merge_def split: sum.splits)

lemma accumulate_frame:
  assumes "frame fs0 fsys" and "extract_uuid f1 = Inr u1" and "extract_uuid f2 = Inr u2"
  shows "accumulate fsys [f1, f2] out = accumulate fs0 [f1, f2] out"
  by (simp add: frame_read[OF assms(1,2)] frame_read[OF assms(1,3)] split: sum.splits)

lemma accumulate_good:
  assumes "readable fsys f1" and "readable fsys f2"
  shows "accumulate fsys [f1, f2] empty_output = Inr (merged fsys f1 f2)"
proof -
  from assms obtain A B where A: "read_doc fsys f1 = Inr A" and B: "read_doc fsys f2 = Inr B"
    by (auto simp: readable_def split: sum.splits)
  obtain M where M: "merge A B = Inr M" using merge_total by blast
  show ?thesis
    unfolding merged_def accumulate_pair[OF A B] M by simp
qed

lemma combine_good:
  assumes fr: "frame fs0 (fs w)" and d: "is_dir fs0 target"
    and u1: "extract_uuid f1 = Inr (uuid_of f1)" and u2: "extract_uuid f2 = Inr u2"
    and g: "good_pair fs0 target (f1, f2)"
  shows "combine target (uuid_of f1) f1 f2 (m, w) = (Inr (), apply_pairs target fs0 [(f1, f2)] (m, w))"
proof -
  have acc: "accumulate (fs w) [f1, f2] empty_output = Inr (merged fs0 f1 f2)"
    using accumulate_frame[OF fr u1 u2] accumulate_good[of fs0 f1 f2] g
    by (simp add: good_pair_def)
  have nd: "map_of (fs w) (out_path target (uuid_of f1)) \<noteq> Some Dir"
    using fr g by (simp add: frame_def good_pair_def)
  have dir: "is_dir (fs w) target" using frame_is_dir[OF fr] d by simp
  have wr: "write_doc (fs w) (target @ [uuid_of f1 @ ''.json'']) (merged fs0 f1 f2) =
        Inr (write_pair target fs0 (f1, f2) (fs w))"
    using nd dir by (simp add: write_doc_def write_pair_def out_path_def)
  show ?thesis
    by (simp add: combine_def Let_def print_line_def acc wr apply_pairs_def match_line_def
        del: accumulate.simps)
qed

lemma apply_pairs_Nil: "apply_pairs target fs0 [] st = st"
  by (simp add: apply_pairs_def)

lemma apply_pairs_append:
  "apply_pairs target fs0 (ps @ qs) st = apply_pairs target fs0 qs (apply_pairs target fs0 ps st)"
  by (simp add: apply_pairs_def)

lemma frame_apply_pairs:
  assumes "frame fs0 (fs (snd st))"
    and "\<forall>pr \<in> set ps. map_of fs0 (out_path target (uuid_of (fst pr))) \<noteq> Some Dir"
  shows "frame fs0 (fs (snd (apply_pairs target fs0 ps st)))"
proof -
  have "frame fs0 (fold (write_pair target fs0) ps fsys)" if "frame fs0 fsys" for fsys
    using that assms(2)
  proof (induction ps arbitrary: fsys)
    case Nil
    then show ?case by simp
  next
    case (Cons pr ps)
    then show ?case by (simp add: frame_write)
  qed
  then show ?thesis using assms(1) by (simp add: apply_pairs_def)
qed

lemma inner_loop_good:
  assumes "frame fs0 (fs (snd st))" and "is_dir fs0 target"
    and "extract_uuid f1 = Inr (uuid_of f1)"
    and "\<forall>f2 \<in> set ys. extract_uuid f2 = Inr (uuid_of f2)"
    and "\<forall>f2 \<in> set ys. uuid_of f1 = uuid_of f2 \<longrightarrow> good_pair fs0 target (f1, f2)"
  shows "inner_loop target f1 (uuid_of f1) ys st =
     (Inr (), apply_pairs target fs0 (map (Pair f1) (filter (\<lambda>f2. uuid_of f1 = uuid_of f2) ys)) st)"
  using assms
proof (induction ys arbitrary: st)
  case Nil
  then show ?case by (simp add: apply_pairs_Nil)
next
  case (Cons f2 ys)
  obtain m w where st: "st = (m, w)" by (cases st)
  have u2: "extract_uuid f2 = Inr (uuid_of f2)" using Cons.prems(4) by simp
  show ?case
  proof (cases "uuid_of f1 = uuid_of f2")
    case True
    have g: "good_pair fs0 target (f1, f2)" using Cons.prems(5) True by simp
    have fr: "frame fs0 (fs w)" using Cons.prems(1) st by simp
    have c: "combine target (uuid_of f1) f1 f2 st = (Inr (), apply_pairs target fs0 [(f1, f2)] st)"
      unfolding st by (rule combine_good[OF fr Cons.prems(2,3) u2 g])
    have fr': "frame fs0 (fs (snd (apply_pairs target fs0 [(f1, f2)] st)))"
      using frame_apply_pairs[OF Cons.prems(1), of "[(f1, f2)]" target] g
      by (simp add: good_pair_def)
    have ih: "inner_loop target f1 (uuid_of f1) ys (apply_pairs target fs0 [(f1, f2)] st) =
        (Inr (), apply_pairs target fs0 (map (Pair f1) (filter (\<lambda>f2. uuid_of f1 = uuid_of f2) ys))
                   (apply_pairs target fs0 [(f1, f2)] st))"
      using Cons.IH[OF fr' Cons.prems(2,3)] Cons.prems(4,5) by simp
    have "map (Pair f1) (filter (\<lambda>f2. uuid_of f1 = uuid_of f2) (f2 # ys)) =
        [(f1, f2)] @ map (Pair f1) (filter (\<lambda>f2. uuid_of f1 = uuid_of f2) ys)"
      using True by simp
    then have "apply_pairs target fs0 (map (Pair f1) (filter (\<lambda>f2. uuid_of f1 = uuid_of f2) (f2 # ys))) st =
        apply_pairs target fs0 (map (Pair f1) (filter (\<lambda>f2. uuid_of f1 = uuid_of f2) ys))
                   (apply_pairs target fs0 [(f1, f2)] st)"
      by (simp only: apply_pairs_append)
    moreover have "inner_loop target f1 (uuid_of f1) (f2 # ys) st =
        inner_loop target f1 (uuid_of f1) ys (apply_pairs target fs0 [(f1, f2)] st)"
      by (simp add: u2 if_P[OF True] c)
    ultimately show ?thesis using ih by simp
  next
    case False
    have ih: "inner_loop target f1 (uuid_of f1) ys st =
        (Inr (), apply_pairs target fs0 (map (Pair f1) (filter (\<lambda>f2. uuid_of f1 = uuid_of f2) ys)) st)"
      using Cons.IH[OF Cons.prems(1,2,3)] Cons.prems(4,5) by simp
    show ?thesis using False by (simp add: u2 ih)
  qed
qed

lemma matched_pairs_Cons:
  "matched_pairs (f1 # xs) ys =
     map (Pair f1) (filter (\<lambda>f2. uuid_of f1 = uuid_of f2) ys) @ matched_pairs xs ys"
  by (simp add: matched_pairs_def)

lemma set_matched_pairs:
  "set (matched_pairs xs ys) = {(f1, f2). f1 \<in> set xs \<and> f2 \<in> set ys \<and> uuid_of f1 = uuid_of f2}"
  by (auto simp: matched_pairs_def)

lemma outer_loop_good:
  assumes "frame fs0 (fs (snd st))" and "is_dir fs0 target"
    and "\<forall>f \<in> set xs \<union> set ys. extract_uuid f = Inr (uuid_of f)"
    and "\<forall>pr \<in> set (matched_pairs xs ys). good_pair fs0 target pr"
  shows "outer_loop target xs ys st = (Inr (), apply_pairs target fs0 (matched_pairs xs ys) st)"
  using assms
proof (induction xs arbitrary: st)
  case Nil
  then show ?case by (simp add: matched_pairs_def apply_pairs_Nil)
next
  case (Cons f1 xs)
  let ?ps = "map (Pair f1) (filter (\<lambda>f2. uuid_of f1 = uuid_of f2) ys)"
  have u1: "extract_uuid f1 = Inr (uuid_of f1)" using Cons.prems(3) by simp
  have wf2: "\<forall>f2 \<in> set ys. extract_uuid f2 = Inr (uuid_of f2)" using Cons.prems(3) by simp
  have g1: "\<forall>f2 \<in> set ys. uuid_of f1 = uuid_of f2 \<longrightarrow> good_pair fs0 target (f1, f2)"
    using Cons.prems(4) by (auto simp: set_matched_pairs)
  have inner: "inner_loop target f1 (uuid_of f1) ys st = (Inr (), apply_pairs target fs0 ?ps st)"
    by (rule inner_loop_good[OF Cons.prems(1,2) u1 wf2 g1])
  have "\<forall>pr \<in> set ?ps. map_of fs0 (out_path target (uuid_of (fst pr))) \<noteq> Some Dir"
    using g1 by (auto simp: good_pair_def)
  then have fr': "frame fs0 (fs (snd (apply_pairs target fs0 ?ps st)))"
    by (rule frame_apply_pairs[OF Cons.prems(1)])
  have ih: "outer_loop target xs ys (apply_pairs target fs0 ?ps st) =
      (Inr (), apply_pairs target fs0 (matched_pairs xs ys) (apply_pairs target fs0 ?ps st))"
    using Cons.IH[OF fr' Cons.prems(2)] Cons.prems(3,4) by (auto simp: set_matched_pairs)
  show ?case
    by (simp add: u1 inner ih matched_pairs_Cons apply_pairs_append)
qed

lemma preserves_refl: "preserves fsys fsys"
  by (simp add: preserves_def)

lemma preserves_trans: "preserves a b \<Longrightarrow> preserves b c \<Longrightarrow> preserves a c"
  by (simp add: preserves_def)

lemma preserves_setitem:
  assumes "dots (path_name p) = 1"
  shows "preserves fsys (setitem fsys p v)"
  using assms by (auto simp: preserves_def map_of_setitem)

lemma combine_preserves:
  assumes "CHR ''.'' \<notin> set u"
  shows "preserves (fs (snd st)) (fs (snd (snd (combine target u f1 f2 st))))"
proof -
  have d: "dots (path_name (target @ [u @ ''.json''])) = 1"
    using dots_zero[OF assms] by (simp add: path_name_def dots_append) (simp add: dots_def)
  show ?thesis
    using preserves_setitem[OF d]
    by (auto simp: combine_def Let_def print_line_def write_doc_def preserves_refl
        simp del: accumulate.simps split: sum.splits)
qed

lemma inner_loop_preserves:
  assumes "CHR ''.'' \<notin> set u"
  shows "preserves (fs (snd st)) (fs (snd (snd (inner_loop target f1 u ys st))))"
proof (induction ys arbitrary: st)
  case Nil
  then show ?case by (simp add: preserves_refl)
next
  case (Cons f2 ys)
  show ?case
  proof (cases "extract_uuid f2")
    case (Inl s)
    then show ?thesis by (simp add: preserves_refl)
  next
    case (Inr u2)
    show ?thesis
    proof (cases "u = u2")
      case False
      then show ?thesis using Inr Cons.IH by simp
    next
      case True
      obtain r st' where c: "combine target u f1 f2 st = (r, st')" by (cases "combine target u f1 f2 st")
      have p1: "preserves (fs (snd st)) (fs (snd st'))"
        using combine_preserves[OF assms, of st target f1 f2] c by simp
      show ?thesis
      proof (cases r)
        case (Inl s)
        then show ?thesis using Inr True c p1 by simp
      next
        case (Inr x)
        have "preserves (fs (snd st')) (fs (snd (snd (inner_loop target f1 u ys st'))))"
          by (rule Cons.IH)
        with p1 have "preserves (fs (snd st)) (fs (snd (snd (inner_loop target f1 u ys st'))))"
          by (rule preserves_trans)
        then show ?thesis using \<open>extract_uuid f2 = Inr u2\<close> True c Inr by simp
      qed
    qed
  qed
qed

lemma outer_loop_preserves:
  "preserves (fs (snd st)) (fs (snd (snd (outer_loop target xs ys st))))"
proof (induction xs arbitrary: st)
  case Nil
  then show ?case by (simp add: preserves_refl)
next
  case (Cons f1 xs)
  show ?case
  proof (cases "extract_uuid f1")
    case (Inl s)
    then show ?thesis by (simp add: preserves_refl)
  next
    case (Inr u)
    have nd: "CHR ''.'' \<notin> set u"
      using extract_uuid_Inr[OF Inr] uuid_of_no_dot[of f1] by simp
    obtain r st' where i: "inner_loop target f1 u ys st = (r, st')"
      by (cases "inner_loop target f1 u ys st")
    have p1: "preserves (fs (snd st)) (fs (snd st'))"
      using inner_loop_preserves[OF nd, of st target f1 ys] i by simp
    show ?thesis
    proof (cases r)
      case (Inl s)
      then show ?thesis using Inr i p1 by simp
    next
      case (Inr x)
      have "preserves (fs (snd st')) (fs (snd (snd (outer_loop target xs ys st'))))"
        by (rule Cons.IH)
      with p1 have "preserves (fs (snd st)) (fs (snd (snd (outer_loop target xs ys st'))))"
        by (rule preserves_trans)
      then show ?thesis using \<open>extract_uuid f1 = Inr u\<close> i Inr by simp
    qed
  qed
qed

lemma combine_no_exit: "fst (combine target u f1 f2 st) \<noteq> Inl (SystemExit s)"
  by (auto simp: combine_def Let_def simp del: accumulate.simps split: sum.splits)

lemma inner_loop_no_exit:
  assumes "\<forall>f2 \<in> set ys. extract_uuid f2 = Inr (uuid_of f2)"
  shows "fst (inner_loop target f1 u ys st) \<noteq> Inl (SystemExit s)"
  using assms
proof (induction ys arbitrary: st)
  case Nil
  then show ?case by simp
next
  case (Cons f2 ys)
  have u2: "extract_uuid f2 = Inr (uuid_of f2)" using Cons.prems by simp
  have ih: "fst (inner_loop target f1 u ys st') \<noteq> Inl (SystemExit s)" for st'
    using Cons.IH Cons.prems by simp
  show ?case
    using combine_no_exit[of target u f1 f2 st s] ih
    by (auto simp: u2 split: prod.splits sum.splits)
qed

lemma outer_loop_no_exit:
  assumes "\<forall>f \<in> set xs \<union> set ys. extract_uuid f = Inr (uuid_of f)"
  shows "fst (outer_loop target xs ys st) \<noteq> Inl (SystemExit s)"
  using assms
proof (induction xs arbitrary: st)
  case Nil
  then show ?case by simp
next
  case (Cons f1 xs)
  have u1: "extract_uuid f1 = Inr (uuid_of f1)" using Cons.prems by simp
  have wf2: "\<forall>f2 \<in> set ys. extract_uuid f2 = Inr (uuid_of f2)" using Cons.prems by simp
  have ih: "fst (outer_loop target xs ys st') \<noteq> Inl (SystemExit s)" for st'
    using Cons.IH Cons.prems by simp
  show ?case
    using inner_loop_no_exit[OF wf2, of target f1 "uuid_of f1" st s] ih
    by (auto simp: u1 split: prod.splits sum.splits)
qed

lemma set_rglob:
  "set (rglob fsys target sfx) =
     {p \<in> set (map fst fsys). is_dir fsys target \<and> below target p \<and> fnmatch_star sfx (path_name p)}"
  by (auto simp: rglob_def)

lemma set_json_files:
  "set (json_files fsys target) =
     {p \<in> set (map fst fsys). is_dir fsys target \<and> below target p \<and> fnmatch_star ''.json'' (path_name p)}"
  by (simp add: json_files_def set_rglob)

lemma set_json1_files:
  "set (json1_files fsys target) =
     {p \<in> set (map fst fsys). is_dir fsys target \<and> below target p \<and> fnmatch_star ''.1.json'' (path_name p)}"
  by (simp add: json1_files_def set_rglob)

lemma set_json2_files:
  "set (json2_files fsys target) =
     {p \<in> set (map fst fsys). is_dir fsys target \<and> below target p \<and> fnmatch_star ''.2.json'' (path_name p)}"
  by (simp add: json2_files_def set_rglob)

lemma fnmatch_generation_json:
  assumes "fnmatch_star ''.1.json'' n \<or> fnmatch_star ''.2.json'' n"
  shows "fnmatch_star ''.json'' n"
proof -
  from assms obtain X d where "n = (X @ [CHR ''.'', d]) @ ''.json''"
    by (auto simp: fnmatch_star_append)
  then show ?thesis unfolding fnmatch_star_append by blast
qed

lemma generation_files_ok:
  assumes "f \<in> set (json1_files fsys target) \<union> set (json2_files fsys target)"
  shows "extract_uuid f = Inr (uuid_of f)" and "CHR ''.'' \<in> set (path_stem f)"
    and "f \<in> set (json_files fsys target)"
proof -
  from assms have m: "fnmatch_star ''.1.json'' (path_name f) \<or> fnmatch_star ''.2.json'' (path_name f)"
    by (auto simp: set_json1_files set_json2_files)
  show "extract_uuid f = Inr (uuid_of f)" and "CHR ''.'' \<in> set (path_stem f)"
    using generation_file_ok[OF m] by simp_all
  show "f \<in> set (json_files fsys target)"
    using assms fnmatch_generation_json[OF m]
    by (auto simp: set_json1_files set_json2_files set_json_files)
qed

lemma json_files_is_dir: "json_files fsys target \<noteq> [] \<Longrightarrow> is_dir fsys target"
  by (auto simp: json_files_def rglob_def split: if_splits)

lemma handle_command_line_Inr:
  "handle_command_line lib argv w = (Inr target, w') \<Longrightarrow> w' = w \<and> path_exists (fs w) target"
  by (auto simp: handle_command_line_def Let_def split: if_splits)

lemma main_no_json:
  assumes "handle_command_line lib argv w = (Inr target, w)" and "json_files (fs w) target = []"
  shows "main lib argv w = (Inl (SystemExit (Some (no_json_message target))), w)"
  using assms by (simp add: main_def)

lemma main_good:
  assumes hc: "handle_command_line lib argv w = (Inr target, w)"
    and ne: "json_files (fs w) target \<noteq> []"
    and g: "\<forall>pr \<in> set (matched_pairs (json1_files (fs w) target) (json2_files (fs w) target)).
              good_pair (fs w) target pr"
  shows "main lib argv w =
     (Inr (),
      w\<lparr>fs := fold (write_pair target (fs w))
                 (matched_pairs (json1_files (fs w) target) (json2_files (fs w) target)) (fs w),
        stdout := stdout w @ [[], combining_line (fs w) target] @
                  map match_line (matched_pairs (json1_files (fs w) target) (json2_files (fs w) target)) @
                  [matched_line (length (matched_pairs (json1_files (fs w) target)
                                                       (json2_files (fs w) target)))]\<rparr>)"
proof -
  let ?xs = "json1_files (fs w) target" and ?ys = "json2_files (fs w) target"
  let ?w3 = "print_line (combining_line (fs w) target) (print_line [] w)"
  have fr: "frame (fs w) (fs (snd (0::nat, ?w3)))" by (simp add: print_line_def frame_refl)
  have wf: "\<forall>f \<in> set ?xs \<union> set ?ys. extract_uuid f = Inr (uuid_of f)"
    using generation_files_ok(1) by blast
  have loop: "outer_loop target ?xs ?ys (0, ?w3) =
      (Inr (), apply_pairs target (fs w) (matched_pairs ?xs ?ys) (0, ?w3))"
    by (rule outer_loop_good[OF fr json_files_is_dir[OF ne] wf g])
  have m: "main lib argv w =
      (case outer_loop target ?xs ?ys (0, ?w3) of
         (Inl s, st) \<Rightarrow> (Inl s, snd st)
       | (Inr u, st) \<Rightarrow> (Inr (), print_line (matched_line (fst st)) (snd st)))"
    unfolding combining_line_def matched_line_def
    using ne by (simp add: main_def hc Let_def)
  show ?thesis
    unfolding m loop by (simp add: apply_pairs_def print_line_def)
qed

lemma out_path_inj: "out_path target u = out_path target u' \<longleftrightarrow> u = u'"
  by (simp add: out_path_def)

lemma fold_write_other:
  "\<forall>pr \<in> set ps. out_path target (uuid_of (fst pr)) \<noteq> p \<Longrightarrow>
   map_of (fold (write_pair target fs0) ps fsys) p = map_of fsys p"
  by (induction ps arbitrary: fsys) (auto simp: write_pair_def map_of_setitem)

lemma fold_write_some:
  "pr \<in> set ps \<Longrightarrow>
   \<exists>pr' \<in> set ps. uuid_of (fst pr') = uuid_of (fst pr) \<and>
     map_of (fold (write_pair target fs0) ps fsys) (out_path target (uuid_of (fst pr))) =
       Some (File (Doc (merged fs0 (fst pr') (snd pr'))))"
proof (induction ps arbitrary: fsys pr)
  case Nil
  then show ?case by simp
next
  case (Cons q ps)
  show ?case
  proof (cases "\<exists>r \<in> set ps. uuid_of (fst r) = uuid_of (fst pr)")
    case True
    then obtain r where r: "r \<in> set ps" and e: "uuid_of (fst r) = uuid_of (fst pr)" by blast
    from Cons.IH[OF r, of "write_pair target fs0 q fsys"] e show ?thesis by auto
  next
    case False
    with Cons.prems have q: "q = pr" by auto
    have "\<forall>r \<in> set ps. out_path target (uuid_of (fst r)) \<noteq> out_path target (uuid_of (fst pr))"
      using False by (simp add: out_path_inj)
    then have "map_of (fold (write_pair target fs0) ps (write_pair target fs0 q fsys))
                 (out_path target (uuid_of (fst pr))) =
               map_of (write_pair target fs0 q fsys) (out_path target (uuid_of (fst pr)))"
      by (rule fold_write_other)
    moreover have "map_of (write_pair target fs0 q fsys) (out_path target (uuid_of (fst pr))) =
               Some (File (Doc (merged fs0 (fst pr) (snd pr))))"
      by (simp add: q write_pair_def map_of_setitem)
    ultimately have "map_of (fold (write_pair target fs0) (q # ps) fsys)
                 (out_path target (uuid_of (fst pr))) =
               Some (File (Doc (merged fs0 (fst pr) (snd pr))))"
      by simp
    then show ?thesis using q by auto
  qed
qed

lemma handle_command_line_fs: "fs (snd (handle_command_line lib argv w)) = fs w"
  by (simp add: handle_command_line_def Let_def print_line_def)

lemma main_preserves: "preserves (fs w) (fs (snd (main lib argv w)))"
proof (cases "handle_command_line lib argv w")
  case (Pair r w1)
  have w1: "fs w1 = fs w" using handle_command_line_fs[of lib argv w] Pair by simp
  show ?thesis
  proof (cases r)
    case (Inl s)
    then show ?thesis using Pair w1 by (simp add: main_def preserves_refl)
  next
    case (Inr target)
    let ?st = "(0::nat, print_line (''Combining from '' @ str_nat (length (json1_files (fs w1) target)) @
                 '' old files and '' @ str_nat (length (json2_files (fs w1) target)) @
                 '' new files'') (print_line [] w1))"
    have p: "preserves (fs (snd ?st))
        (fs (snd (snd (outer_loop target (json1_files (fs w1) target) (json2_files (fs w1) target) ?st))))"
      by (rule outer_loop_preserves)
    have s: "fs (snd ?st) = fs w" by (simp add: print_line_def w1)
    show ?thesis
    proof (cases "json_files (fs w1) target = []")
      case True
      then show ?thesis using Pair Inr w1 by (simp add: main_def preserves_refl)
    next
      case False
      then show ?thesis
        using p unfolding s
        by (auto simp: main_def Pair Inr Let_def print_line_def split: prod.splits sum.splits)
    qed
  qed
qed

lemma messages_differ: "no_json_message target \<noteq> unexpected_name_message n"
  by (simp add: no_json_message_def unexpected_name_message_def)

lemma main_no_unexpected_name:
  "fst (main lib argv w) \<noteq> Inl (SystemExit (Some (unexpected_name_message n)))"
proof (cases "handle_command_line lib argv w")
  case (Pair r w1)
  show ?thesis
  proof (cases r)
    case (Inl s)
    then have "s = SystemExit None"
      using Pair by (auto simp: handle_command_line_def Let_def split: if_splits)
    then show ?thesis using Pair Inl by (simp add: main_def)
  next
    case (Inr target)
    let ?xs = "json1_files (fs w1) target" and ?ys = "json2_files (fs w1) target"
    have wf: "\<forall>f \<in> set ?xs \<union> set ?ys. extract_uuid f = Inr (uuid_of f)"
      using generation_files_ok(1) by blast
    have ne: "outer_loop target ?xs ?ys st \<noteq> (Inl (SystemExit (Some (unexpected_name_message n))), st')"
      for st st'
      using outer_loop_no_exit[OF wf, of target st "Some (unexpected_name_message n)"]
      by (metis fst_conv)
    show ?thesis
      using ne messages_differ[of target n]
      by (auto simp: main_def Pair Inr Let_def split: prod.splits sum.splits)
  qed
qed

lemma generation_name_dots:
  assumes "fnmatch_star ''.1.json'' (path_name p) \<or> fnmatch_star ''.2.json'' (path_name p)"
  shows "dots (path_name p) \<noteq> 1"
  using dots_input[OF generation_file_ok(1)[OF assms]] by simp

lemma filter_pairs_concat:
  "map (Pair x) (filter P ys) = concat (map (\<lambda>y. if P y then [(x, y)] else []) ys)"
  by (induction ys) simp_all

lemma matched_pairs_comprehension:
  "matched_pairs xs ys = [(f1, f2). f1 \<leftarrow> xs, f2 \<leftarrow> ys, uuid_of f1 = uuid_of f2]"
  by (simp add: matched_pairs_def filter_pairs_concat)

lemma merged_is_merge:
  assumes "readable fsys f1" and "readable fsys f2"
  shows "\<exists>A B. read_doc fsys f1 = Inr A \<and> read_doc fsys f2 = Inr B \<and>
               merge A B = Inr (merged fsys f1 f2)"
proof -
  from assms obtain A B where A: "read_doc fsys f1 = Inr A" and B: "read_doc fsys f2 = Inr B"
    by (auto simp: readable_def split: sum.splits)
  obtain M where M: "merge A B = Inr M" using merge_total by blast
  have "merged fsys f1 f2 = M"
    unfolding merged_def accumulate_pair[OF A B] M by simp
  with A B M show ?thesis by simp
qed

section \<open>Claims about the merge\<close>

text \<open>
  C1. For valid documents \<open>A\<close> and \<open>B\<close> and every category and item key present in
  \<open>A\<close> or in \<open>B\<close>, the merge returns a document whose value at that category and key
  is the smaller of 2147483647 and the sum of the two values, an absent entry counting
  as 0.
\<close>

theorem merge_saturating_sum:
  assumes "valid_doc A" and "valid_doc B"
    and "lookup A cat k \<noteq> None \<or> lookup B cat k \<noteq> None"
  shows "\<exists>M. merge A B = Inr M \<and>
             lookup M cat k = Some (min 2147483647 (get0 A cat k + get0 B cat k))"
proof -
  obtain M where M: "merge A B = Inr M" using merge_total by blast
  show ?thesis
    using lookup_merge[OF assms(1,2) M, of cat k] assms(3) M by auto
qed

theorem merge_saturating_sum_witness:
  "valid_doc \<lparr>stats = [(''custom'', [(''jump'', 2000000000), (''walk'', 7)])], DataVersion = 100\<rparr> \<and>
   valid_doc \<lparr>stats = [(''custom'', [(''jump'', 1000000000)]), (''mined'', [(''stone'', 3)])], DataVersion = 200\<rparr> \<and>
   merge \<lparr>stats = [(''custom'', [(''jump'', 2000000000), (''walk'', 7)])], DataVersion = 100\<rparr>
         \<lparr>stats = [(''custom'', [(''jump'', 1000000000)]), (''mined'', [(''stone'', 3)])], DataVersion = 200\<rparr>
     = Inr \<lparr>stats = [(''custom'', [(''jump'', 2147483647), (''walk'', 7)]), (''mined'', [(''stone'', 3)])],
            DataVersion = 200\<rparr> \<and>
   (\<exists>M. merge \<lparr>stats = [(''custom'', [(''jump'', 2000000000), (''walk'', 7)])], DataVersion = 100\<rparr>
         \<lparr>stats = [(''custom'', [(''jump'', 1000000000)]), (''mined'', [(''stone'', 3)])], DataVersion = 200\<rparr>
       = Inr M \<and> lookup M ''custom'' ''jump'' = Some 2147483647)"
  using merge_saturating_sum [of
      "\<lparr>stats = [(''custom'', [(''jump'', 2000000000), (''walk'', 7)])], DataVersion = 100\<rparr>"
      "\<lparr>stats = [(''custom'', [(''jump'', 1000000000)]), (''mined'', [(''stone'', 3)])], DataVersion = 200\<rparr>"
      "''custom''" "''jump''"]
  by (simp add: valid_doc_def valid_inner_def is_dict_def lookup_def get0_def merge_def merge_data_def
      empty_output_def add_value_def contains_def getitem_def setitem_def Let_def)

text \<open>
  C2. For valid documents \<open>A\<close> and \<open>B\<close>, the merge returns a document whose version
  marker is the larger of the two version markers.
\<close>

theorem merge_DataVersion_max:
  assumes "valid_doc A" and "valid_doc B"
  shows "\<exists>M. merge A B = Inr M \<and> DataVersion M = max (DataVersion A) (DataVersion B)"
proof -
  obtain M where M: "merge A B = Inr M" using merge_total by blast
  have "0 \<le> DataVersion A" using assms(1) by (simp add: valid_doc_def)
  then show ?thesis using DataVersion_merge[OF M] M by simp
qed

theorem merge_DataVersion_max_witness:
  "valid_doc \<lparr>stats = [(''custom'', [(''jump'', 5)])], DataVersion = 100\<rparr> \<and>
   valid_doc \<lparr>stats = [(''custom'', [(''jump'', 10)])], DataVersion = 200\<rparr> \<and>
   merge \<lparr>stats = [(''custom'', [(''jump'', 5)])], DataVersion = 100\<rparr>
         \<lparr>stats = [(''custom'', [(''jump'', 10)])], DataVersion = 200\<rparr>
     = Inr \<lparr>stats = [(''custom'', [(''jump'', 15)])], DataVersion = 200\<rparr> \<and>
   (\<exists>M. merge \<lparr>stats = [(''custom'', [(''jump'', 5)])], DataVersion = 100\<rparr>
              \<lparr>stats = [(''custom'', [(''jump'', 10)])], DataVersion = 200\<rparr> = Inr M \<and>
        DataVersion M = 200)"
  using merge_DataVersion_max [of
      "\<lparr>stats = [(''custom'', [(''jump'', 5)])], DataVersion = 100\<rparr>"
      "\<lparr>stats = [(''custom'', [(''jump'', 10)])], DataVersion = 200\<rparr>"]
  by (simp add: valid_doc_def valid_inner_def is_dict_def merge_def merge_data_def
      empty_output_def add_value_def contains_def getitem_def setitem_def Let_def)

text \<open>
  C7. The merge is commutative on valid documents: both orders return a document, and
  the two documents have the same version marker and the same stats mapping.
\<close>

theorem merge_commutative:
  assumes "valid_doc A" and "valid_doc B"
  shows "\<exists>M N. merge A B = Inr M \<and> merge B A = Inr N \<and> doc_equal M N"
proof -
  obtain M where M: "merge A B = Inr M" using merge_total by blast
  obtain N where N: "merge B A = Inr N" using merge_total by blast
  have "stats_map M c = stats_map N c" for c
    unfolding stats_map_lookup
    using dom_stats_merge[OF assms M, of c] dom_stats_merge[OF assms(2,1) N, of c]
      lookup_merge[OF assms M, of c] lookup_merge[OF assms(2,1) N, of c]
    by (auto simp: add.commute)
  then have "stats_map M = stats_map N" by (rule ext)
  moreover have "DataVersion M = DataVersion N"
    using DataVersion_merge[OF M] DataVersion_merge[OF N] by (simp add: max.commute max.left_commute)
  ultimately show ?thesis using M N by (simp add: doc_equal_def)
qed

theorem merge_commutative_witness:
  "valid_doc \<lparr>stats = [(''custom'', [(''jump'', 5)])], DataVersion = 300\<rparr> \<and>
   valid_doc \<lparr>stats = [(''mined'', [(''stone'', 3)]), (''custom'', [(''walk'', 2), (''jump'', 10)])],
              DataVersion = 200\<rparr> \<and>
   merge \<lparr>stats = [(''custom'', [(''jump'', 5)])], DataVersion = 300\<rparr>
         \<lparr>stats = [(''mined'', [(''stone'', 3)]), (''custom'', [(''walk'', 2), (''jump'', 10)])],
          DataVersion = 200\<rparr>
     = Inr \<lparr>stats = [(''custom'', [(''jump'', 15), (''walk'', 2)]), (''mined'', [(''stone'', 3)])],
            DataVersion = 300\<rparr> \<and>
   merge \<lparr>stats = [(''mined'', [(''stone'', 3)]), (''custom'', [(''walk'', 2), (''jump'', 10)])],
          DataVersion = 200\<rparr>
         \<lparr>stats = [(''custom'', [(''jump'', 5)])], DataVersion = 300\<rparr>
     = Inr \<lparr>stats = [(''mined'', [(''stone'', 3)]), (''custom'', [(''walk'', 2), (''jump'', 15)])],
            DataVersion = 300\<rparr> \<and>
   doc_equal
     \<lparr>stats = [(''custom'', [(''jump'', 15), (''walk'', 2)]), (''mined'', [(''stone'', 3)])],
      DataVersion = 300\<rparr>
     \<lparr>stats = [(''mined'', [(''stone'', 3)]), (''custom'', [(''walk'', 2), (''jump'', 15)])],
      DataVersion = 300\<rparr>"
  using merge_commutative [of
      "\<lparr>stats = [(''custom'', [(''jump'', 5)])], DataVersion = 300\<rparr>"
      "\<lparr>stats = [(''mined'', [(''stone'', 3)]), (''custom'', [(''walk'', 2), (''jump'', 10)])],
        DataVersion = 200\<rparr>"]
  by (simp add: valid_doc_def valid_inner_def is_dict_def merge_def merge_data_def
      empty_output_def add_value_def contains_def getitem_def setitem_def Let_def)

section \<open>Claims about the run of the tool\<close>


text \<open>
  C4 (as stated). For the stem \<^verbatim>\<open>a.b.1\<close> the extracted UUID is \<^verbatim>\<open>a\<close>, not \<^verbatim>\<open>a.b\<close>; the
  files \<^verbatim>\<open>a.b.1.json\<close> and \<^verbatim>\<open>a.c.2.json\<close> get the same UUID and are merged into
  \<^verbatim>\<open>a.json\<close>.
\<close>

theorem uuid_prefix_counterexample:
  "path_stem [''stats'', ''a.b.1.json''] = ''a.b.1'' \<and>
   extract_uuid [''stats'', ''a.b.1.json''] = Inr ''a'' \<and>
   extract_uuid [''stats'', ''a.c.2.json''] = Inr ''a'' \<and>
   main (ex_lib [''stats'']) [''/stats'']
       (ex_world [([''stats''], Dir),
                  ([''stats'', ''a.b.1.json''], File (Doc (ex_doc 5 100))),
                  ([''stats'', ''a.c.2.json''], File (Doc (ex_doc 10 200)))])
     = (Inr (),
        \<lparr>fs = [([''stats''], Dir),
               ([''stats'', ''a.b.1.json''], File (Doc (ex_doc 5 100))),
               ([''stats'', ''a.c.2.json''], File (Doc (ex_doc 10 200))),
               ([''stats'', ''a.json''], File (Doc (ex_doc 15 200)))],
         cwd = [''home''],
         stdout = ['''', ''Combining from 1 old files and 1 new files'', ''a Match found'',
                   ''Matched 1 files'']\<rparr>)"
  by code_simp

text \<open>
  C4 (amended). For every discovered generation-1 file and generation-2 file, the UUID
  used as the pairing key is the part of the file name before its first dot (for a UUID
  without a dot this is the stem without its generation marker). The pairs the run
  processes are the pairs of a discovered generation-1 file and a discovered
  generation-2 file whose keys are equal as strings, each generation-1 file in turn with
  the generation-2 files in their order; so a pair is among them exactly when its two
  keys are equal. When every such pair consists of two readable documents whose output
  path is not a directory, the run completes, and it writes the merge of the two
  documents of each of these pairs, prints one line for each and reports their number.
\<close>

theorem pairs_merged_iff_uuids_equal:
  assumes "handle_command_line lib argv w = (Inr target, w)"
    and "f1 \<in> set (json1_files (fs w) target)" and "f2 \<in> set (json2_files (fs w) target)"
    and "\<forall>pr \<in> set (pairs_of (fs w) target). good_pair (fs w) target pr"
  shows "extract_uuid f1 = Inr (takeWhile (\<lambda>c. c \<noteq> CHR ''.'') (path_name f1)) \<and>
         extract_uuid f2 = Inr (takeWhile (\<lambda>c. c \<noteq> CHR ''.'') (path_name f2)) \<and>
         (CHR ''.'' \<notin> set u \<and> path_stem f1 = u @ ''.1'' \<longrightarrow> extract_uuid f1 = Inr u) \<and>
         pairs_of (fs w) target =
           [(g1, g2). g1 \<leftarrow> json1_files (fs w) target, g2 \<leftarrow> json2_files (fs w) target,
                      uuid_of g1 = uuid_of g2] \<and>
         ((f1, f2) \<in> set (pairs_of (fs w) target) \<longleftrightarrow> uuid_of f1 = uuid_of f2) \<and>
         (uuid_of f1 = uuid_of f2 \<longrightarrow>
            (\<exists>A B. read_doc (fs w) f1 = Inr A \<and> read_doc (fs w) f2 = Inr B \<and>
                   merge A B = Inr (merged (fs w) f1 f2))) \<and>
         main lib argv w =
           (Inr (),
            w\<lparr>fs := fold (\<lambda>pr fsys. setitem fsys (target @ [uuid_of (fst pr) @ ''.json''])
                                      (File (Doc (merged (fs w) (fst pr) (snd pr)))))
                       (pairs_of (fs w) target) (fs w),
              stdout := stdout w @ [[], combining_line (fs w) target] @
                        map (\<lambda>pr. uuid_of (fst pr) @ '' Match found'') (pairs_of (fs w) target) @
                        [''Matched '' @ str_nat (length (pairs_of (fs w) target)) @ '' files'']\<rparr>)"
proof -
  have u1: "extract_uuid f1 = Inr (uuid_of f1)" and u2: "extract_uuid f2 = Inr (uuid_of f2)"
    using generation_files_ok(1)[of f1 "fs w" target] generation_files_ok(1)[of f2 "fs w" target]
      assms(2,3)
    by simp_all
  have d: "uuid_of f1 = u" if "CHR ''.'' \<notin> set u" and "path_stem f1 = u @ ''.1''"
    using that by (auto simp: uuid_of_def name_stem_suffix takeWhile_tail takeWhile_eq_all_conv)
  have c: "pairs_of (fs w) target =
           [(g1, g2). g1 \<leftarrow> json1_files (fs w) target, g2 \<leftarrow> json2_files (fs w) target,
                      uuid_of g1 = uuid_of g2]"
    by (simp only: pairs_of_def matched_pairs_comprehension)
  have m: "(f1, f2) \<in> set (pairs_of (fs w) target) \<longleftrightarrow> uuid_of f1 = uuid_of f2"
    using assms(2,3) by (simp add: pairs_of_def set_matched_pairs)
  have ne: "json_files (fs w) target \<noteq> []"
    using generation_files_ok(3)[of f1 "fs w" target] assms(2) by auto
  have g: "\<forall>pr \<in> set (matched_pairs (json1_files (fs w) target) (json2_files (fs w) target)).
      good_pair (fs w) target pr"
    using assms(4) by (simp add: pairs_of_def)
  have wp: "write_pair target (fs w) =
      (\<lambda>pr fsys. setitem fsys (target @ [uuid_of (fst pr) @ ''.json''])
                            (File (Doc (merged (fs w) (fst pr) (snd pr)))))"
    by (intro ext) (simp add: write_pair_def out_path_def)
  have ml: "match_line = (\<lambda>pr. uuid_of (fst pr) @ '' Match found'')"
    by (intro ext) (simp add: match_line_def)
  have r: "main lib argv w =
           (Inr (),
            w\<lparr>fs := fold (\<lambda>pr fsys. setitem fsys (target @ [uuid_of (fst pr) @ ''.json''])
                                      (File (Doc (merged (fs w) (fst pr) (snd pr)))))
                       (pairs_of (fs w) target) (fs w),
              stdout := stdout w @ [[], combining_line (fs w) target] @
                        map (\<lambda>pr. uuid_of (fst pr) @ '' Match found'') (pairs_of (fs w) target) @
                        [''Matched '' @ str_nat (length (pairs_of (fs w) target)) @ '' files'']\<rparr>)"
    unfolding wp[symmetric] ml[symmetric]
    using main_good[OF assms(1) ne g] by (simp add: pairs_of_def matched_line_def)
  have x: "\<exists>A B. read_doc (fs w) f1 = Inr A \<and> read_doc (fs w) f2 = Inr B \<and>
                 merge A B = Inr (merged (fs w) f1 f2)"
    if "uuid_of f1 = uuid_of f2"
  proof -
    from that m assms(4) have "good_pair (fs w) target (f1, f2)" by blast
    then show ?thesis using merged_is_merge[of "fs w" f1 f2] by (simp add: good_pair_def)
  qed
  show ?thesis
    using u1 u2 d c m x r by (simp add: uuid_of_def)
qed

theorem pairs_merged_iff_uuids_equal_witness:
  "handle_command_line (ex_lib [''stats'']) [''/stats''] (ex_world ex_fs_two_pairs)
     = (Inr [''stats''], ex_world ex_fs_two_pairs) \<and>
   json1_files ex_fs_two_pairs [''stats'']
     = [[''stats'', ''1234.1.json''], [''stats'', ''5678.1.json'']] \<and>
   json2_files ex_fs_two_pairs [''stats'']
     = [[''stats'', ''1234.2.json''], [''stats'', ''5678.2.json'']] \<and>
   good_pair ex_fs_two_pairs [''stats'']
     ([''stats'', ''1234.1.json''], [''stats'', ''1234.2.json'']) \<and>
   good_pair ex_fs_two_pairs [''stats'']
     ([''stats'', ''5678.1.json''], [''stats'', ''5678.2.json'']) \<and>
   extract_uuid [''stats'', ''5678.1.json''] = Inr ''5678'' \<and>
   extract_uuid [''stats'', ''5678.2.json''] = Inr ''5678'' \<and>
   pairs_of ex_fs_two_pairs [''stats'']
     = [([''stats'', ''1234.1.json''], [''stats'', ''1234.2.json'']),
        ([''stats'', ''5678.1.json''], [''stats'', ''5678.2.json''])] \<and>
   ([''stats'', ''5678.1.json''], [''stats'', ''5678.2.json''])
     \<in> set (pairs_of (fs (ex_world ex_fs_two_pairs)) [''stats'']) \<and>
   ([''stats'', ''1234.1.json''], [''stats'', ''5678.2.json''])
     \<notin> set (pairs_of (fs (ex_world ex_fs_two_pairs)) [''stats'']) \<and>
   main (ex_lib [''stats'']) [''/stats''] (ex_world ex_fs_two_pairs)
     = (Inr (),
        \<lparr>fs = [([''stats''], Dir),
               ([''stats'', ''1234.1.json''], File (Doc (ex_doc 1 10))),
               ([''stats'', ''1234.2.json''], File (Doc (ex_doc 2 20))),
               ([''stats'', ''5678.1.json''], File (Doc (ex_doc 5 100))),
               ([''stats'', ''5678.2.json''], File (Doc (ex_doc 10 200))),
               ([''stats'', ''1234.json''], File (Doc (ex_doc 3 20))),
               ([''stats'', ''5678.json''], File (Doc (ex_doc 15 200)))],
         cwd = [''home''],
         stdout = ['''', ''Combining from 2 old files and 2 new files'', ''1234 Match found'',
                   ''5678 Match found'', ''Matched 2 files'']\<rparr>)"
proof -
  let ?w = "ex_world ex_fs_two_pairs"
  let ?a1 = "[''stats'', ''1234.1.json'']" and ?a2 = "[''stats'', ''1234.2.json'']"
  let ?b1 = "[''stats'', ''5678.1.json'']" and ?b2 = "[''stats'', ''5678.2.json'']"
  have h1: "handle_command_line (ex_lib [''stats'']) [''/stats''] ?w = (Inr [''stats''], ?w)"
    by code_simp
  have hb1: "?b1 \<in> set (json1_files (fs ?w) [''stats''])"
    and ha1: "?a1 \<in> set (json1_files (fs ?w) [''stats''])"
    and hb2: "?b2 \<in> set (json2_files (fs ?w) [''stats''])"
    by code_simp+
  have h4: "\<forall>pr \<in> set (pairs_of (fs ?w) [''stats'']). good_pair (fs ?w) [''stats''] pr"
    by code_simp
  note c = pairs_merged_iff_uuids_equal [OF h1 hb1 hb2 h4, of "''5678''"]
  note d = pairs_merged_iff_uuids_equal [OF h1 ha1 hb2 h4, of "''1234''"]
  have ub: "uuid_of ?b1 = uuid_of ?b2" and ua: "uuid_of ?a1 \<noteq> uuid_of ?b2"
    by code_simp+
  have c1: "(?b1, ?b2) \<in> set (pairs_of (fs ?w) [''stats''])"
    using c ub by blast
  have d1: "(?a1, ?b2) \<notin> set (pairs_of (fs ?w) [''stats''])"
    using d ua by blast
  have e: "?w\<lparr>fs := fold (\<lambda>pr fsys. setitem fsys ([''stats''] @ [uuid_of (fst pr) @ ''.json''])
                                      (File (Doc (merged (fs ?w) (fst pr) (snd pr)))))
                       (pairs_of (fs ?w) [''stats'']) (fs ?w),
              stdout := stdout ?w @ [[], combining_line (fs ?w) [''stats'']] @
                        map (\<lambda>pr. uuid_of (fst pr) @ '' Match found'') (pairs_of (fs ?w) [''stats'']) @
                        [''Matched '' @ str_nat (length (pairs_of (fs ?w) [''stats''])) @ '' files'']\<rparr>
      = \<lparr>fs = [([''stats''], Dir),
               (?a1, File (Doc (ex_doc 1 10))),
               (?a2, File (Doc (ex_doc 2 20))),
               (?b1, File (Doc (ex_doc 5 100))),
               (?b2, File (Doc (ex_doc 10 200))),
               ([''stats'', ''1234.json''], File (Doc (ex_doc 3 20))),
               ([''stats'', ''5678.json''], File (Doc (ex_doc 15 200)))],
         cwd = [''home''],
         stdout = ['''', ''Combining from 2 old files and 2 new files'', ''1234 Match found'',
                   ''5678 Match found'', ''Matched 2 files'']\<rparr>"
    by code_simp
  have c2: "main (ex_lib [''stats'']) [''/stats''] ?w
     = (Inr (),
        \<lparr>fs = [([''stats''], Dir),
               (?a1, File (Doc (ex_doc 1 10))),
               (?a2, File (Doc (ex_doc 2 20))),
               (?b1, File (Doc (ex_doc 5 100))),
               (?b2, File (Doc (ex_doc 10 200))),
               ([''stats'', ''1234.json''], File (Doc (ex_doc 3 20))),
               ([''stats'', ''5678.json''], File (Doc (ex_doc 15 200)))],
         cwd = [''home''],
         stdout = ['''', ''Combining from 2 old files and 2 new files'', ''1234 Match found'',
                   ''5678 Match found'', ''Matched 2 files'']\<rparr>)"
    using c unfolding e by blast
  have a1: "json1_files ex_fs_two_pairs [''stats''] = [?a1, ?b1]"
    and a2: "json2_files ex_fs_two_pairs [''stats''] = [?a2, ?b2]"
    and a3: "good_pair ex_fs_two_pairs [''stats''] (?a1, ?a2)"
    and a4: "good_pair ex_fs_two_pairs [''stats''] (?b1, ?b2)"
    and a5: "extract_uuid ?b1 = Inr ''5678''"
    and a6: "extract_uuid ?b2 = Inr ''5678''"
    and a7: "pairs_of ex_fs_two_pairs [''stats''] = [(?a1, ?a2), (?b1, ?b2)]"
    by code_simp+
  show ?thesis
    using h1 a1 a2 a3 a4 a5 a6 a7 c1 d1 c2 by blast
qed

text \<open>
  C5. With a path argument that does not exist the tool prints its message and stops
  before any scan or write, but through \<^verbatim>\<open>exit()\<close> without an argument: the exit
  status is 0, where the claim says it is not zero.
\<close>

theorem missing_path_exit_status:
  "main (ex_lib [''no'', ''such'', ''dir'']) [''/no/such/dir''] (ex_world [([''stats''], Dir)])
     = (Inl (SystemExit None),
        \<lparr>fs = [([''stats''], Dir)], cwd = [''home''],
         stdout = [''Specified path not found. /no/such/dir is not a valid filesystem path.'']\<rparr>) \<and>
   exit_status (fst (main (ex_lib [''no'', ''such'', ''dir'']) [''/no/such/dir'']
                       (ex_world [([''stats''], Dir)]))) = 0"
  by code_simp

text \<open>
  C6 (as stated). With a directory named \<^verbatim>\<open>foo.json\<close> in the target directory and no
  regular file whose name ends in \<^verbatim>\<open>.json\<close>, the listing of \<^verbatim>\<open>*.json\<close> is not empty: the
  run reports no error and ends normally.
\<close>

theorem no_json_files_counterexample:
  "regular_json_files ex_fs_json_dir [''stats''] = [] \<and>
   json_files ex_fs_json_dir [''stats''] = [[''stats'', ''foo.json'']] \<and>
   handle_command_line (ex_lib [''stats'']) [''/stats''] (ex_world ex_fs_json_dir)
     = (Inr [''stats''], ex_world ex_fs_json_dir) \<and>
   main (ex_lib [''stats'']) [''/stats''] (ex_world ex_fs_json_dir)
     = (Inr (),
        \<lparr>fs = [([''stats''], Dir), ([''stats'', ''foo.json''], Dir)],
         cwd = [''home''],
         stdout = ['''', ''Combining from 0 old files and 0 new files'', ''Matched 0 files'']\<rparr>) \<and>
   exit_status (fst (main (ex_lib [''stats'']) [''/stats''] (ex_world ex_fs_json_dir))) = 0"
  by code_simp

text \<open>
  C6 (amended). When the target exists and nothing below it, file or directory, has a
  name ending in \<^verbatim>\<open>.json\<close>, the tool stops with the message that there are no JSON
  files under the target, with exit status 1, and the file system and the standard
  output are as they were.
\<close>

theorem no_json_files_error:
  assumes "handle_command_line lib argv w = (Inr target, w)"
    and "\<forall>p \<in> set (map fst (fs w)). below target p \<longrightarrow> \<not> fnmatch_star ''.json'' (path_name p)"
  shows "main lib argv w = (Inl (SystemExit (Some (no_json_message target))), w) \<and>
         exit_status (fst (main lib argv w)) = 1"
proof -
  have "set (json_files (fs w) target) = {}"
    using assms(2) by (auto simp: set_json_files)
  then have "json_files (fs w) target = []" by simp
  from main_no_json[OF assms(1) this] show ?thesis by (simp add: exit_status_def)
qed

theorem no_json_files_error_witness:
  "handle_command_line (ex_lib [''stats'']) [''/stats'']
       (ex_world [([''stats''], Dir), ([''stats'', ''notes.txt''], File Invalid)])
     = (Inr [''stats''], ex_world [([''stats''], Dir), ([''stats'', ''notes.txt''], File Invalid)]) \<and>
   \<not> fnmatch_star ''.json'' (path_name [''stats'', ''notes.txt'']) \<and>
   main (ex_lib [''stats'']) [''/stats'']
       (ex_world [([''stats''], Dir), ([''stats'', ''notes.txt''], File Invalid)])
     = (Inl (SystemExit (Some ''\<newline>Error: There are no JSON files under /stats'')),
        ex_world [([''stats''], Dir), ([''stats'', ''notes.txt''], File Invalid)]) \<and>
   exit_status (fst (main (ex_lib [''stats'']) [''/stats'']
       (ex_world [([''stats''], Dir), ([''stats'', ''notes.txt''], File Invalid)]))) = 1"
proof -
  have h: "handle_command_line (ex_lib [''stats'']) [''/stats'']
       (ex_world [([''stats''], Dir), ([''stats'', ''notes.txt''], File Invalid)])
     = (Inr [''stats''], ex_world [([''stats''], Dir), ([''stats'', ''notes.txt''], File Invalid)])"
    by code_simp
  have n: "\<forall>p \<in> set (map fst (fs (ex_world [([''stats''], Dir), ([''stats'', ''notes.txt''], File Invalid)]))).
      below [''stats''] p \<longrightarrow> \<not> fnmatch_star ''.json'' (path_name p)"
    by (simp add: ex_world_def below_def fnmatch_star_def path_name_def)
  have m: "no_json_message [''stats''] = ''\<newline>Error: There are no JSON files under /stats''"
    by (simp add: no_json_message_def str_path_def)
  have f: "\<not> fnmatch_star ''.json'' (path_name [''stats'', ''notes.txt''])"
    by (simp add: fnmatch_star_def path_name_def)
  show ?thesis
    using no_json_files_error[OF h n] h f by (simp add: m exit_status_def)
qed

text \<open>
  C8. Whatever the run does, every path whose name matches one of the two generation
  patterns keeps its node, and every path that existed still exists. When the target is
  accepted, some name below it ends in \<^verbatim>\<open>.json\<close>, and every matched pair consists of two
  readable documents whose output path is not a directory, the run completes and the
  final file system is the initial one after one write per matched pair, in the order of
  the loops: the merge of the pair's two documents is stored at \<^verbatim>\<open>{uuid}.json\<close> directly
  in the target directory, replacing whatever file was there. In particular the output
  path of every matched pair then holds the merged document of a pair with that UUID.
\<close>

theorem merged_output_written:
  "(\<forall>p. fnmatch_star ''.1.json'' (path_name p) \<or> fnmatch_star ''.2.json'' (path_name p) \<longrightarrow>
        map_of (fs (snd (main lib argv w))) p = map_of (fs w) p) \<and>
   (\<forall>p. path_exists (fs w) p \<longrightarrow> path_exists (fs (snd (main lib argv w))) p) \<and>
   (handle_command_line lib argv w = (Inr target, w) \<and> json_files (fs w) target \<noteq> [] \<and>
    (\<forall>pr \<in> set (pairs_of (fs w) target). good_pair (fs w) target pr) \<longrightarrow>
      fst (main lib argv w) = Inr () \<and>
      fs (snd (main lib argv w)) =
        fold (\<lambda>pr fsys. setitem fsys (target @ [uuid_of (fst pr) @ ''.json''])
                            (File (Doc (merged (fs w) (fst pr) (snd pr)))))
             (pairs_of (fs w) target) (fs w) \<and>
      (\<forall>pr \<in> set (pairs_of (fs w) target).
          \<exists>A B. read_doc (fs w) (fst pr) = Inr A \<and> read_doc (fs w) (snd pr) = Inr B \<and>
                merge A B = Inr (merged (fs w) (fst pr) (snd pr))) \<and>
      (\<forall>pr \<in> set (pairs_of (fs w) target).
          \<exists>pr' \<in> set (pairs_of (fs w) target). uuid_of (fst pr') = uuid_of (fst pr) \<and>
            map_of (fs (snd (main lib argv w))) (target @ [uuid_of (fst pr) @ ''.json'']) =
              Some (File (Doc (merged (fs w) (fst pr') (snd pr'))))))"
proof (intro conjI impI allI)
  fix p
  assume "fnmatch_star ''.1.json'' (path_name p) \<or> fnmatch_star ''.2.json'' (path_name p)"
  then have "dots (path_name p) \<noteq> 1" by (rule generation_name_dots)
  then show "map_of (fs (snd (main lib argv w))) p = map_of (fs w) p"
    using main_preserves[of w lib argv] by (simp add: preserves_def)
next
  fix p
  assume "path_exists (fs w) p"
  then show "path_exists (fs (snd (main lib argv w))) p"
    using main_preserves[of w lib argv] by (auto simp: preserves_def path_exists_def contains_iff)
next
  assume h: "handle_command_line lib argv w = (Inr target, w) \<and> json_files (fs w) target \<noteq> [] \<and>
    (\<forall>pr \<in> set (pairs_of (fs w) target). good_pair (fs w) target pr)"
  then have g: "\<forall>pr \<in> set (matched_pairs (json1_files (fs w) target) (json2_files (fs w) target)).
      good_pair (fs w) target pr"
    by (simp add: pairs_of_def)
  note m = main_good[OF conjunct1[OF h] conjunct1[OF conjunct2[OF h]] g]
  have w: "write_pair target (fs w) =
      (\<lambda>pr fsys. setitem fsys (target @ [uuid_of (fst pr) @ ''.json''])
                            (File (Doc (merged (fs w) (fst pr) (snd pr)))))"
    by (intro ext) (simp add: write_pair_def out_path_def)
  show "fst (main lib argv w) = Inr ()" by (simp add: m)
  show f: "fs (snd (main lib argv w)) =
        fold (\<lambda>pr fsys. setitem fsys (target @ [uuid_of (fst pr) @ ''.json''])
                            (File (Doc (merged (fs w) (fst pr) (snd pr)))))
             (pairs_of (fs w) target) (fs w)"
    unfolding w[symmetric] by (simp add: m pairs_of_def)
  show "\<forall>pr \<in> set (pairs_of (fs w) target).
          \<exists>A B. read_doc (fs w) (fst pr) = Inr A \<and> read_doc (fs w) (snd pr) = Inr B \<and>
                merge A B = Inr (merged (fs w) (fst pr) (snd pr))"
  proof
    fix pr
    assume "pr \<in> set (pairs_of (fs w) target)"
    with h have "readable (fs w) (fst pr)" and "readable (fs w) (snd pr)"
      by (simp_all add: good_pair_def)
    then obtain A B where A: "read_doc (fs w) (fst pr) = Inr A" and B: "read_doc (fs w) (snd pr) = Inr B"
      by (auto simp: readable_def split: sum.splits)
    obtain M where M: "merge A B = Inr M" using merge_total by blast
    have "merged (fs w) (fst pr) (snd pr) = M"
      unfolding merged_def accumulate_pair[OF A B] M by simp
    with A B M show "\<exists>A B. read_doc (fs w) (fst pr) = Inr A \<and> read_doc (fs w) (snd pr) = Inr B \<and>
                merge A B = Inr (merged (fs w) (fst pr) (snd pr))"
      by simp
  qed
  show "\<forall>pr \<in> set (pairs_of (fs w) target).
          \<exists>pr' \<in> set (pairs_of (fs w) target). uuid_of (fst pr') = uuid_of (fst pr) \<and>
            map_of (fs (snd (main lib argv w))) (target @ [uuid_of (fst pr) @ ''.json'']) =
              Some (File (Doc (merged (fs w) (fst pr') (snd pr'))))"
  proof
    fix pr
    assume "pr \<in> set (pairs_of (fs w) target)"
    from fold_write_some[OF this, of target "fs w" "fs w"]
    show "\<exists>pr' \<in> set (pairs_of (fs w) target). uuid_of (fst pr') = uuid_of (fst pr) \<and>
            map_of (fs (snd (main lib argv w))) (target @ [uuid_of (fst pr) @ ''.json'']) =
              Some (File (Doc (merged (fs w) (fst pr') (snd pr'))))"
      unfolding f w[symmetric] by (simp add: out_path_def)
  qed
qed

theorem merged_output_written_witness:
  "handle_command_line (ex_lib [''stats'']) [''/stats''] (ex_world ex_fs_overwrite)
     = (Inr [''stats''], ex_world ex_fs_overwrite) \<and>
   json_files ex_fs_overwrite [''stats''] \<noteq> [] \<and>
   pairs_of ex_fs_overwrite [''stats'']
     = [([''stats'', ''1234.1.json''], [''stats'', ''1234.2.json''])] \<and>
   good_pair ex_fs_overwrite [''stats'']
     ([''stats'', ''1234.1.json''], [''stats'', ''1234.2.json'']) \<and>
   map_of ex_fs_overwrite [''stats'', ''1234.json''] = Some (File Invalid) \<and>
   fst (main (ex_lib [''stats'']) [''/stats''] (ex_world ex_fs_overwrite)) = Inr () \<and>
   fs (snd (main (ex_lib [''stats'']) [''/stats''] (ex_world ex_fs_overwrite)))
     = [([''stats''], Dir),
        ([''stats'', ''1234.json''], File (Doc (ex_doc 15 200))),
        ([''stats'', ''1234.1.json''], File (Doc (ex_doc 5 100))),
        ([''stats'', ''1234.2.json''], File (Doc (ex_doc 10 200)))]"
proof -
  let ?w = "ex_world ex_fs_overwrite"
  have h1: "handle_command_line (ex_lib [''stats'']) [''/stats''] ?w = (Inr [''stats''], ?w)"
    by code_simp
  have h2: "json_files (fs ?w) [''stats''] \<noteq> []"
    by code_simp
  have h3: "pairs_of (fs ?w) [''stats'']
      = [([''stats'', ''1234.1.json''], [''stats'', ''1234.2.json''])]"
    by code_simp
  have h4: "good_pair (fs ?w) [''stats'']
      ([''stats'', ''1234.1.json''], [''stats'', ''1234.2.json''])"
    by code_simp
  have h5: "map_of ex_fs_overwrite [''stats'', ''1234.json''] = Some (File Invalid)"
    by code_simp
  have g: "\<forall>pr \<in> set (pairs_of (fs ?w) [''stats'']). good_pair (fs ?w) [''stats''] pr"
    using h4 by (simp add: h3)
  from merged_output_written [of "ex_lib [''stats'']" "[''/stats'']" ?w "[''stats'']"] h1 h2 g
  have c: "fst (main (ex_lib [''stats'']) [''/stats''] ?w) = Inr () \<and>
      fs (snd (main (ex_lib [''stats'']) [''/stats''] ?w)) =
        fold (\<lambda>pr fsys. setitem fsys ([''stats''] @ [uuid_of (fst pr) @ ''.json''])
                            (File (Doc (merged (fs ?w) (fst pr) (snd pr)))))
             (pairs_of (fs ?w) [''stats'']) (fs ?w)"
    by blast
  have e: "fold (\<lambda>pr fsys. setitem fsys ([''stats''] @ [uuid_of (fst pr) @ ''.json''])
                            (File (Doc (merged (fs ?w) (fst pr) (snd pr)))))
             (pairs_of (fs ?w) [''stats'']) (fs ?w)
      = [([''stats''], Dir),
         ([''stats'', ''1234.json''], File (Doc (ex_doc 15 200))),
         ([''stats'', ''1234.1.json''], File (Doc (ex_doc 5 100))),
         ([''stats'', ''1234.2.json''], File (Doc (ex_doc 10 200)))]"
    by code_simp
  have f: "fs ?w = ex_fs_overwrite" by (simp add: ex_world_def)
  have c': "fst (main (ex_lib [''stats'']) [''/stats''] ?w) = Inr () \<and>
      fs (snd (main (ex_lib [''stats'']) [''/stats''] ?w))
      = [([''stats''], Dir),
         ([''stats'', ''1234.json''], File (Doc (ex_doc 15 200))),
         ([''stats'', ''1234.1.json''], File (Doc (ex_doc 5 100))),
         ([''stats'', ''1234.2.json''], File (Doc (ex_doc 10 200)))]"
    using c unfolding e .
  show ?thesis
    using c' h1 h2[unfolded f] h3[unfolded f] h4[unfolded f] h5 by blast
qed

text \<open>
  C9. Let the target be accepted and let every matched pair consist of two readable
  documents whose output path is not a directory. For a generation-1 file whose UUID is
  the UUID of no generation-2 file, or a generation-2 file whose UUID is the UUID of no
  generation-1 file, the run completes normally; the standard output gains the empty
  line, the line with the two counts, one line per matched pair and the line with the
  number of matched pairs, and nothing else; no matched pair contains the file or has
  its UUID; and the path \<^verbatim>\<open>{uuid}.json\<close> of the file in the target directory is as it
  was.
\<close>

theorem unmatched_files_ignored:
  assumes "handle_command_line lib argv w = (Inr target, w)"
    and "(f \<in> set (json1_files (fs w) target) \<and>
          (\<forall>g \<in> set (json2_files (fs w) target). uuid_of g \<noteq> uuid_of f)) \<or>
         (f \<in> set (json2_files (fs w) target) \<and>
          (\<forall>g \<in> set (json1_files (fs w) target). uuid_of g \<noteq> uuid_of f))"
    and "\<forall>pr \<in> set (pairs_of (fs w) target). good_pair (fs w) target pr"
  shows "fst (main lib argv w) = Inr () \<and>
         stdout (snd (main lib argv w)) =
           stdout w @ [[], combining_line (fs w) target] @
           map (\<lambda>pr. uuid_of (fst pr) @ '' Match found'') (pairs_of (fs w) target) @
           [''Matched '' @ str_nat (length (pairs_of (fs w) target)) @ '' files''] \<and>
         (\<forall>pr \<in> set (pairs_of (fs w) target).
             fst pr \<noteq> f \<and> snd pr \<noteq> f \<and> uuid_of (fst pr) \<noteq> uuid_of f) \<and>
         map_of (fs (snd (main lib argv w))) (target @ [uuid_of f @ ''.json'']) =
           map_of (fs w) (target @ [uuid_of f @ ''.json''])"
proof -
  let ?ps = "pairs_of (fs w) target"
  have fj: "f \<in> set (json_files (fs w) target)"
    using assms(2) generation_files_ok(3)[of f "fs w" target] by auto
  then have ne: "json_files (fs w) target \<noteq> []" by auto
  have g: "\<forall>pr \<in> set (matched_pairs (json1_files (fs w) target) (json2_files (fs w) target)).
      good_pair (fs w) target pr"
    using assms(3) by (simp add: pairs_of_def)
  note m = main_good[OF assms(1) ne g]
  have un: "\<forall>pr \<in> set ?ps. fst pr \<noteq> f \<and> snd pr \<noteq> f \<and> uuid_of (fst pr) \<noteq> uuid_of f"
    using assms(2) by (auto simp: pairs_of_def set_matched_pairs)
  then have "\<forall>pr \<in> set ?ps. out_path target (uuid_of (fst pr)) \<noteq> out_path target (uuid_of f)"
    by (simp add: out_path_inj)
  then have "map_of (fold (write_pair target (fs w)) ?ps (fs w)) (out_path target (uuid_of f)) =
      map_of (fs w) (out_path target (uuid_of f))"
    by (rule fold_write_other)
  then have "map_of (fs (snd (main lib argv w))) (target @ [uuid_of f @ ''.json'']) =
      map_of (fs w) (target @ [uuid_of f @ ''.json''])"
    by (simp add: m pairs_of_def out_path_def)
  moreover have "map match_line ?ps = map (\<lambda>pr. uuid_of (fst pr) @ '' Match found'') ?ps"
    by (simp add: match_line_def)
  ultimately show ?thesis
    using un by (simp add: m pairs_of_def matched_line_def)
qed

theorem unmatched_files_ignored_witness:
  "handle_command_line (ex_lib [''stats'']) [''/stats''] (ex_world ex_fs_unmatched)
     = (Inr [''stats''], ex_world ex_fs_unmatched) \<and>
   [''stats'', ''9999.1.json''] \<in> set (json1_files ex_fs_unmatched [''stats'']) \<and>
   map (\<lambda>g. uuid_of g) (json2_files ex_fs_unmatched [''stats'']) = [''1234'', ''7777''] \<and>
   uuid_of [''stats'', ''9999.1.json''] = ''9999'' \<and>
   map_of ex_fs_unmatched [''stats'', ''9999.1.json''] = Some (File Invalid) \<and>
   pairs_of ex_fs_unmatched [''stats'']
     = [([''stats'', ''1234.1.json''], [''stats'', ''1234.2.json''])] \<and>
   good_pair ex_fs_unmatched [''stats'']
     ([''stats'', ''1234.1.json''], [''stats'', ''1234.2.json'']) \<and>
   fst (main (ex_lib [''stats'']) [''/stats''] (ex_world ex_fs_unmatched)) = Inr () \<and>
   stdout (snd (main (ex_lib [''stats'']) [''/stats''] (ex_world ex_fs_unmatched)))
     = ['''', ''Combining from 2 old files and 2 new files'', ''1234 Match found'',
        ''Matched 1 files''] \<and>
   map_of (fs (snd (main (ex_lib [''stats'']) [''/stats''] (ex_world ex_fs_unmatched))))
       [''stats'', ''9999.json'']
     = None"
proof -
  let ?w = "ex_world ex_fs_unmatched"
  let ?f = "[''stats'', ''9999.1.json'']"
  have f: "fs ?w = ex_fs_unmatched" by (simp add: ex_world_def)
  have h1: "handle_command_line (ex_lib [''stats'']) [''/stats''] ?w = (Inr [''stats''], ?w)"
    by code_simp
  have h2: "(?f \<in> set (json1_files (fs ?w) [''stats'']) \<and>
          (\<forall>g \<in> set (json2_files (fs ?w) [''stats'']). uuid_of g \<noteq> uuid_of ?f)) \<or>
         (?f \<in> set (json2_files (fs ?w) [''stats'']) \<and>
          (\<forall>g \<in> set (json1_files (fs ?w) [''stats'']). uuid_of g \<noteq> uuid_of ?f))"
    by code_simp
  have h3: "\<forall>pr \<in> set (pairs_of (fs ?w) [''stats'']). good_pair (fs ?w) [''stats''] pr"
    by code_simp
  note c = unmatched_files_ignored [OF h1 h2 h3]
  have e1: "stdout ?w @ [[], combining_line (fs ?w) [''stats'']] @
           map (\<lambda>pr. uuid_of (fst pr) @ '' Match found'') (pairs_of (fs ?w) [''stats'']) @
           [''Matched '' @ str_nat (length (pairs_of (fs ?w) [''stats''])) @ '' files'']
      = ['''', ''Combining from 2 old files and 2 new files'', ''1234 Match found'',
         ''Matched 1 files'']"
    by code_simp
  have e2: "[''stats''] @ [uuid_of ?f @ ''.json''] = [''stats'', ''9999.json'']"
    by code_simp
  have e3: "map_of (fs ?w) [''stats'', ''9999.json''] = None"
    by code_simp
  have c1: "fst (main (ex_lib [''stats'']) [''/stats''] ?w) = Inr ()"
    using c by blast
  have c2: "stdout (snd (main (ex_lib [''stats'']) [''/stats''] ?w))
      = ['''', ''Combining from 2 old files and 2 new files'', ''1234 Match found'',
         ''Matched 1 files'']"
    using c unfolding e1 by blast
  have c3: "map_of (fs (snd (main (ex_lib [''stats'']) [''/stats''] ?w))) [''stats'', ''9999.json'']
      = None"
    using c unfolding e2 e3 by blast
  have a1: "?f \<in> set (json1_files ex_fs_unmatched [''stats''])"
    by code_simp
  have a2: "map (\<lambda>g. uuid_of g) (json2_files ex_fs_unmatched [''stats'']) = [''1234'', ''7777'']"
    by code_simp
  have a3: "uuid_of ?f = ''9999''"
    by code_simp
  have a4: "map_of ex_fs_unmatched ?f = Some (File Invalid)"
    by code_simp
  have a5: "pairs_of ex_fs_unmatched [''stats'']
      = [([''stats'', ''1234.1.json''], [''stats'', ''1234.2.json''])]"
    by code_simp
  have a6: "good_pair ex_fs_unmatched [''stats'']
      ([''stats'', ''1234.1.json''], [''stats'', ''1234.2.json''])"
    by code_simp
  show ?thesis
    using h1 a1 a2 a3 a4 a5 a6 c1 c2 c3 by blast
qed

text \<open>
  C10. Every file that the patterns \<^verbatim>\<open>*.1.json\<close> and \<^verbatim>\<open>*.2.json\<close> discover has a dot in
  its stem and passes the name check, and no run of the tool ends with the
  unexpected-name message, for any file name.
\<close>

theorem unexpected_name_abort_unreachable:
  "(\<forall>f \<in> set (json1_files fsys target) \<union> set (json2_files fsys target).
       CHR ''.'' \<in> set (path_stem f) \<and> extract_uuid f = Inr (uuid_of f)) \<and>
   fst (main lib argv w) \<noteq> Inl (SystemExit (Some (unexpected_name_message n)))"
  using generation_files_ok(1,2) main_no_unexpected_name by blast

theorem unexpected_name_abort_unreachable_witness:
  "[''stats'', ''old'', ''7777.2.json'']
     \<in> set (json1_files ex_fs_unmatched [''stats'']) \<union> set (json2_files ex_fs_unmatched [''stats'']) \<and>
   path_stem [''stats'', ''old'', ''7777.2.json''] = ''7777.2'' \<and>
   CHR ''.'' \<in> set (path_stem [''stats'', ''old'', ''7777.2.json'']) \<and>
   extract_uuid [''stats'', ''old'', ''7777.2.json''] = Inr (uuid_of [''stats'', ''old'', ''7777.2.json'']) \<and>
   fst (main (ex_lib [''stats'']) [''/stats''] (ex_world ex_fs_unmatched))
     \<noteq> Inl (SystemExit (Some (unexpected_name_message ''7777.2.json'')))"
proof -
  have m: "[''stats'', ''old'', ''7777.2.json'']
     \<in> set (json1_files ex_fs_unmatched [''stats'']) \<union> set (json2_files ex_fs_unmatched [''stats''])"
    by code_simp
  have s: "path_stem [''stats'', ''old'', ''7777.2.json''] = ''7777.2''"
    by code_simp
  show ?thesis
    using unexpected_name_abort_unreachable [of ex_fs_unmatched "[''stats'']" "ex_lib [''stats'']"
        "[''/stats'']" "ex_world ex_fs_unmatched" "''7777.2.json''"] m s
    by blast
qed

end
